theory Spec2Isabelle
  imports Main
begin

section \<open>Python strings\<close>

text \<open>
  The module \<^verbatim>\<open>src/app/src/models/s3_data_access.py\<close> works on Python \<^verbatim>\<open>str\<close>
  values with \<^verbatim>\<open>strip\<close>, \<^verbatim>\<open>lower\<close>, \<^verbatim>\<open>startswith\<close>, \<^verbatim>\<open>endswith\<close>, \<^verbatim>\<open>in\<close>,
  \<^verbatim>\<open>split\<close> and \<^verbatim>\<open>replace\<close>. A string is modelled as the list of its code points, each
  an 8-bit character: the strings of the model are the Python strings over U+0000 to
  U+00FF, and the operations are Python's on these. Code points above U+00FF are outside
  the model.
\<close>

definition is_space :: "char \<Rightarrow> bool" where
  \<comment> \<open>the characters \<^verbatim>\<open>str.strip()\<close> removes: TAB, LF, VT, FF, CR, FS, GS, RS, US, SPACE,
      and above 127 NEL (U+0085) and NBSP (U+00A0)\<close>
  "is_space c =
     (let n = (of_char c :: nat) in
      (9 \<le> n \<and> n \<le> 13) \<or> (28 \<le> n \<and> n \<le> 32) \<or> n = 133 \<or> n = 160)"

definition is_upper :: "char \<Rightarrow> bool" where
  \<comment> \<open>the letters \<^verbatim>\<open>str.lower()\<close> changes: A to Z, and above 127 U+00C0 to U+00DE without
      the multiplication sign U+00D7\<close>
  "is_upper c =
     (let n = (of_char c :: nat) in
      (65 \<le> n \<and> n \<le> 90) \<or> (192 \<le> n \<and> n \<le> 222 \<and> n \<noteq> 215))"

definition lower_char :: "char \<Rightarrow> char" where
  \<comment> \<open>the lower-case letter is 32 code points above the upper-case one\<close>
  "lower_char c = (if is_upper c then char_of ((of_char c :: nat) + 32) else c)"

definition lower :: "string \<Rightarrow> string" where
  "lower s = map lower_char s"

definition strip :: "string \<Rightarrow> string" where
  "strip s = rev (dropWhile is_space (rev (dropWhile is_space s)))"

fun startswith :: "string \<Rightarrow> string \<Rightarrow> bool" where
  "startswith s [] = True"
| "startswith [] (p # ps) = False"
| "startswith (c # cs) (p # ps) = (c = p \<and> startswith cs ps)"

definition endswith :: "string \<Rightarrow> string \<Rightarrow> bool" where
  "endswith s suffix = startswith (rev s) (rev suffix)"

fun contains :: "string \<Rightarrow> string \<Rightarrow> bool" where
  \<comment> \<open>\<^verbatim>\<open>sub in s\<close>\<close>
  "contains sub [] = (sub = [])"
| "contains sub (c # cs) = (startswith (c # cs) sub \<or> contains sub cs)"

function split_from :: "string \<Rightarrow> string \<Rightarrow> string \<Rightarrow> string list" where
  \<comment> \<open>\<^verbatim>\<open>s.split(sep)\<close> read left to right; \<open>cur\<close> is the piece being collected\<close>
  "split_from sep cur [] = [cur]"
| "split_from sep cur (c # cs) =
     (if sep \<noteq> [] \<and> startswith (c # cs) sep
      then cur # split_from sep [] (drop (length sep) (c # cs))
      else split_from sep (cur @ [c]) cs)"
  by pat_completeness auto
termination
  by (relation "measure (\<lambda>(sep, cur, s). length s)") auto

definition py_split :: "string \<Rightarrow> string \<Rightarrow> string list" where
  \<comment> \<open>\<^verbatim>\<open>s.split(sep)\<close> for a non-empty separator (the source only passes literals)\<close>
  "py_split sep s = split_from sep [] s"

function replace :: "string \<Rightarrow> string \<Rightarrow> string \<Rightarrow> string" where
  \<comment> \<open>\<^verbatim>\<open>s.replace(old, new)\<close> for a non-empty \<open>old\<close>: every occurrence, left to right\<close>
  "replace old new [] = []"
| "replace old new (c # cs) =
     (if old \<noteq> [] \<and> startswith (c # cs) old
      then new @ replace old new (drop (length old) (c # cs))
      else c # replace old new cs)"
  by pat_completeness auto
termination
  by (relation "measure (\<lambda>(old, new, s). length s)") auto

fun py_join :: "string \<Rightarrow> string list \<Rightarrow> string" where
  \<comment> \<open>\<^verbatim>\<open>sep.join(xs)\<close>\<close>
  "py_join sep [] = []"
| "py_join sep [x] = x"
| "py_join sep (x # y # ys) = x @ sep @ py_join sep (y # ys)"

section \<open>Tables\<close>

text \<open>
  A pandas \<^verbatim>\<open>DataFrame\<close> is modelled column by column: the number of rows and the
  labelled columns in their order. A cell is \<open>None\<close> where pandas holds a missing
  value (NaN). The row index is not modelled.
\<close>

datatype exn =
    OverflowError
  | IndexError
  | ValueError
  | AttributeError
  | KeyError "string list"  \<comment> \<open>the labels that are not columns of the table\<close>
  | Raised string           \<comment> \<open>an exception of boto3, gzip or pandas, by its class name\<close>

record 'v frame =
  nrows :: nat
  cols :: "(string \<times> 'v option list) list"

definition DataFrame :: "'v frame" where
  \<comment> \<open>\<^verbatim>\<open>pd.DataFrame()\<close>\<close>
  "DataFrame = \<lparr>nrows = 0, cols = []\<rparr>"

definition columns :: "'v frame \<Rightarrow> string list" where
  "columns df = map fst (cols df)"

definition df_empty :: "'v frame \<Rightarrow> bool" where
  \<comment> \<open>\<^verbatim>\<open>df.empty\<close>: one of the axes has length 0\<close>
  "df_empty df = (nrows df = 0 \<or> cols df = [])"

definition df_copy :: "'v frame \<Rightarrow> 'v frame" where
  "df_copy df = df"

definition getitem :: "'v frame \<Rightarrow> string list \<Rightarrow> exn + 'v frame" where
  \<comment> \<open>Modelled from the spec: \<^verbatim>\<open>df[labels]\<close> for a list of labels is pandas' code, not
      under src/. The table is projected to the labels in their order; a label that is no
      column raises KeyError with the missing labels; a label carried by several columns
      selects all of them\<close>
  "getitem df labels =
     (let missing = filter (\<lambda>l. l \<notin> set (columns df)) labels in
      if missing \<noteq> [] then Inl (KeyError missing)
      else Inr \<lparr>nrows = nrows df,
                cols = concat (map (\<lambda>l. filter (\<lambda>(n, vs). n = l) (cols df)) labels)\<rparr>)"

definition wf_frame :: "'v frame \<Rightarrow> bool" where
  \<comment> \<open>what \<^verbatim>\<open>pd.read_csv\<close> and \<^verbatim>\<open>pd.concat\<close> produce: distinct labels, columns of one length\<close>
  "wf_frame df = (distinct (columns df) \<and> list_all (\<lambda>(n, vs). length vs = nrows df) (cols df))"

section \<open>execute\_query\<close>

datatype query_error =
    MustStartWithSelect        \<comment> \<open>\<^verbatim>\<open>"Query must start with SELECT"\<close>\<close>
  | ErrorExecutingQuery exn    \<comment> \<open>\<^verbatim>\<open>f"Error executing query: {str(e)}"\<close>\<close>

definition select_columns :: "'v frame \<Rightarrow> string \<Rightarrow> exn + 'v frame" where
  \<comment> \<open>lines 199-203 and 212-216\<close>
  "select_columns df columns_str =
     (if columns_str = ''*'' then Inr (df_copy df)
      else getitem df (map strip (py_split '','' columns_str)))"

text \<open>
  \<open>pd_query result where_part\<close> stands for pandas' \<^verbatim>\<open>result.query(where_part)\<close>, the
  expression evaluator of the library; it is a parameter of the model.
\<close>

definition execute_query ::
  "('v frame \<Rightarrow> string \<Rightarrow> exn + 'v frame) \<Rightarrow> 'v frame \<Rightarrow> string \<Rightarrow> 'v frame \<times> query_error option"
where
  "execute_query pd_query df query0 =
     (let query = strip query0 in
      if \<not> startswith (lower query) ''select'' then (DataFrame, Some MustStartWithSelect)
      else
        (case
           (if contains ''where'' (lower query) then
              (case py_split ''where'' (lower query) of
                 select_part # where_part # rest \<Rightarrow>
                   (case select_columns df (strip (replace ''select'' [] select_part)) of
                      Inl e \<Rightarrow> Inl e
                    | Inr result \<Rightarrow> pd_query result where_part)
               | _ \<Rightarrow> Inl IndexError)
            else select_columns df (strip (replace ''select'' [] (lower query))))
         of
           Inl e \<Rightarrow> (DataFrame, Some (ErrorExecutingQuery e))
         | Inr result \<Rightarrow> (result, None)))"

text \<open>
  \<open>execute_query\<close> itself never assigns to \<^verbatim>\<open>df\<close>: \<^verbatim>\<open>pd.DataFrame()\<close>, \<^verbatim>\<open>df.copy()\<close>
  and \<^verbatim>\<open>df[columns]\<close> each build a new object. To speak about the table objects, the
  same function is given once more over a store: an object is addressed by its position,
  and a new object is appended.
\<close>

type_synonym 'v store = "'v frame list"

definition new_object :: "'v store \<Rightarrow> 'v frame \<Rightarrow> 'v store \<times> nat" where
  "new_object h f = (h @ [f], length h)"






text \<open>The pieces of the statement that \<open>execute_query\<close> computes on its way, by name.\<close>

definition select_part :: "string \<Rightarrow> string" where
  \<comment> \<open>\<^verbatim>\<open>query.lower().split('where')[0]\<close>, or the whole lowered statement (line 211)\<close>
  "select_part query =
     (if contains ''where'' (lower query) then hd (py_split ''where'' (lower query))
      else lower query)"

definition where_part :: "string \<Rightarrow> string option" where
  \<comment> \<open>\<^verbatim>\<open>query.lower().split('where')[1]\<close> when the statement holds \<^verbatim>\<open>where\<close>\<close>
  "where_part query =
     (if contains ''where'' (lower query) then Some (py_split ''where'' (lower query) ! 1)
      else None)"

definition columns_str :: "string \<Rightarrow> string" where
  "columns_str query = strip (replace ''select'' [] (select_part query))"

definition requested_columns :: "string \<Rightarrow> string list option" where
  \<comment> \<open>\<open>None\<close> is the wildcard\<close>
  "requested_columns query =
     (if columns_str query = ''*'' then None
      else Some (map strip (py_split '','' (columns_str query))))"

section \<open>get\_schema\_from\_data\<close>

datatype 'v sample =
    Value "'v option"   \<comment> \<open>\<^verbatim>\<open>df[column].iloc[0]\<close>, a cell of the table\<close>
  | NullText            \<comment> \<open>the string \<^verbatim>\<open>"NULL"\<close>\<close>

definition series :: "'v frame \<Rightarrow> string \<Rightarrow> exn + 'v option list" where
  \<comment> \<open>\<^verbatim>\<open>df[column]\<close> for one label of \<^verbatim>\<open>df.columns\<close>: a Series when the label is carried
      by one column; with a repeated label pandas gives a DataFrame, and \<^verbatim>\<open>.dtype\<close> on it
      raises AttributeError\<close>
  "series df column =
     (case filter (\<lambda>(n, vs). n = column) (cols df) of
        [(n, vs)] \<Rightarrow> Inr vs
      | _ \<Rightarrow> Inl AttributeError)"

definition schema_sample :: "'v option list \<Rightarrow> 'v sample" where
  \<comment> \<open>line 150: \<^verbatim>\<open>df[column].iloc[0] if not df[column].isna().all() else "NULL"\<close>\<close>
  "schema_sample vs = (if \<not> list_all (\<lambda>v. v = None) vs then Value (hd vs) else NullText)"

text \<open>
  The text of a dtype and of a cell is what numpy and pandas print; \<open>dtype_str\<close> and
  \<open>cell_str\<close> are parameters of the model.
\<close>

definition schema_line ::
  "('v option list \<Rightarrow> string) \<Rightarrow> ('v option \<Rightarrow> string) \<Rightarrow> string \<Rightarrow> 'v option list \<Rightarrow> string"
where
  "schema_line dtype_str cell_str column vs =
     ''- '' @ column @ '' ('' @ dtype_str vs @ ''): Example value: '' @
       (case schema_sample vs of Value v \<Rightarrow> cell_str v | NullText \<Rightarrow> ''NULL'')"

fun schema_lines ::
  "('v option list \<Rightarrow> string) \<Rightarrow> ('v option \<Rightarrow> string) \<Rightarrow> 'v frame \<Rightarrow> string list
     \<Rightarrow> exn + string list"
where
  \<comment> \<open>the loop of lines 148-151 over \<^verbatim>\<open>df.columns\<close>\<close>
  "schema_lines dtype_str cell_str df [] = Inr []"
| "schema_lines dtype_str cell_str df (column # rest) =
     (case series df column of
        Inl e \<Rightarrow> Inl e
      | Inr vs \<Rightarrow>
          (case schema_lines dtype_str cell_str df rest of
             Inl e \<Rightarrow> Inl e
           | Inr ls \<Rightarrow> Inr (schema_line dtype_str cell_str column vs # ls)))"

definition get_schema_from_data ::
  "('v option list \<Rightarrow> string) \<Rightarrow> ('v option \<Rightarrow> string) \<Rightarrow> 'v frame \<Rightarrow> exn + string"
where
  "get_schema_from_data dtype_str cell_str df =
     (if df_empty df then Inr ''No data available to generate schema.''
      else
        (case schema_lines dtype_str cell_str df (columns df) of
           Inl e \<Rightarrow> Inl e
         | Inr ls \<Rightarrow> Inr (py_join [CHR 0x0A] (''Table Schema:'' # ls))))"

section \<open>pd.concat\<close>

text \<open>
  \<^verbatim>\<open>pd.concat(all_data, ignore_index=True)\<close> with the defaults \<^verbatim>\<open>axis=0\<close>,
  \<^verbatim>\<open>join='outer'\<close>, \<^verbatim>\<open>sort=False\<close>: the columns are the union of the frames' columns in
  the order of their first appearance, the rows are the frames' rows one frame after the
  other, and a frame without a column contributes missing values to it. An empty list
  of frames raises ValueError.
\<close>

definition first_seen :: "'a list \<Rightarrow> 'a list" where
  \<comment> \<open>the elements in the order of their first occurrence\<close>
  "first_seen xs = rev (remdups (rev xs))"

definition column_or_missing :: "'v frame \<Rightarrow> string \<Rightarrow> 'v option list" where
  "column_or_missing f n =
     (case map_of (cols f) n of Some vs \<Rightarrow> vs | None \<Rightarrow> replicate (nrows f) None)"

definition pd_concat :: "'v frame list \<Rightarrow> exn + 'v frame" where
  \<comment> \<open>Modelled from the spec: \<^verbatim>\<open>pd.concat\<close> is pandas' code, not under src/. Schema
      union: a column absent from a frame is filled with missing values for that frame's
      rows; the rows keep the order of the frames and their order within a frame\<close>
  "pd_concat fs =
     (if fs = [] then Inl ValueError
      else Inr \<lparr>nrows = sum_list (map nrows fs),
                cols = map (\<lambda>n. (n, concat (map (\<lambda>f. column_or_missing f n) fs)))
                         (first_seen (concat (map columns fs)))\<rparr>)"

definition combine :: "'v frame list \<Rightarrow> exn + 'v frame" where
  \<comment> \<open>lines 122-126\<close>
  "combine all_data = (if all_data = [] then Inr DataFrame else pd_concat all_data)"

section \<open>Dates\<close>

text \<open>
  A naive \<^verbatim>\<open>datetime\<close> is its proleptic Gregorian ordinal (day 1 is 0001-01-01, the last
  day 9999-12-31 is 3652059) and the microseconds since midnight. The calendar functions
  follow CPython's \<^verbatim>\<open>datetime\<close> module.
\<close>

record datetime =
  day_ordinal :: int
  time_of_day :: nat

definition MAXORDINAL :: int where
  "MAXORDINAL = 3652059"

definition dt_le :: "datetime \<Rightarrow> datetime \<Rightarrow> bool" where
  \<comment> \<open>\<^verbatim>\<open>a <= b\<close>\<close>
  "dt_le a b = (day_ordinal a < day_ordinal b
                 \<or> (day_ordinal a = day_ordinal b \<and> time_of_day a \<le> time_of_day b))"

definition add_days :: "datetime \<Rightarrow> int \<Rightarrow> exn + datetime" where
  \<comment> \<open>\<^verbatim>\<open>d + timedelta(days=n)\<close>: OverflowError ("date value out of range") outside the
      years 1 to 9999\<close>
  "add_days d n =
     (let k = day_ordinal d + n in
      if k < 1 \<or> MAXORDINAL < k then Inl OverflowError else Inr (d\<lparr>day_ordinal := k\<rparr>))"

definition timedelta_days :: "datetime \<Rightarrow> datetime \<Rightarrow> int" where
  \<comment> \<open>\<^verbatim>\<open>(e - s).days\<close>: a timedelta is normalised with its seconds and microseconds not
      negative\<close>
  "timedelta_days e s =
     day_ordinal e - day_ordinal s - (if time_of_day e < time_of_day s then 1 else 0)"

definition is_leap :: "int \<Rightarrow> bool" where
  "is_leap year = (year mod 4 = 0 \<and> (year mod 100 \<noteq> 0 \<or> year mod 400 = 0))"

definition DAYS_IN_MONTH :: "int list" where
  "DAYS_IN_MONTH = [-1, 31, 28, 31, 30, 31, 30, 31, 31, 30, 31, 30, 31]"

definition DAYS_BEFORE_MONTH :: "int list" where
  "DAYS_BEFORE_MONTH = [-1, 0, 31, 59, 90, 120, 151, 181, 212, 243, 273, 304, 334]"

definition days_before_year :: "int \<Rightarrow> int" where
  "days_before_year year =
     (let y = year - 1 in y * 365 + y div 4 - y div 100 + y div 400)"

definition days_in_month :: "int \<Rightarrow> int \<Rightarrow> int" where
  "days_in_month year month =
     (if month = 2 \<and> is_leap year then 29 else DAYS_IN_MONTH ! nat month)"

definition days_before_month :: "int \<Rightarrow> int \<Rightarrow> int" where
  "days_before_month year month =
     DAYS_BEFORE_MONTH ! nat month + (if month > 2 \<and> is_leap year then 1 else 0)"

definition ymd2ord :: "int \<Rightarrow> int \<Rightarrow> int \<Rightarrow> int" where
  "ymd2ord year month day = days_before_year year + days_before_month year month + day"

definition ord2ymd :: "int \<Rightarrow> int \<times> int \<times> int" where
  "ord2ymd n0 =
     (let n = n0 - 1;
          n400 = n div 146097; n = n mod 146097;
          year = n400 * 400 + 1;
          n100 = n div 36524; n = n mod 36524;
          n4 = n div 1461; n = n mod 1461;
          n1 = n div 365; n = n mod 365;
          year = year + n100 * 100 + n4 * 4 + n1
      in
        if n1 = 4 \<or> n100 = 4 then (year - 1, 12, 31)
        else
          (let leapyear = (n1 = 3 \<and> (n4 \<noteq> 24 \<or> n100 = 3));
               month = (n + 50) div 32;
               preceding = DAYS_BEFORE_MONTH ! nat month + (if month > 2 \<and> leapyear then 1 else 0);
               (month, preceding) =
                 (if preceding > n
                  then (month - 1,
                        preceding - (DAYS_IN_MONTH ! nat (month - 1)
                                      + (if month - 1 = 2 \<and> leapyear then 1 else 0)))
                  else (month, preceding))
           in (year, month, n - preceding + 1)))"

definition year :: "datetime \<Rightarrow> int" where
  "year d = fst (ord2ymd (day_ordinal d))"

definition month :: "datetime \<Rightarrow> int" where
  "month d = fst (snd (ord2ymd (day_ordinal d)))"

definition day :: "datetime \<Rightarrow> int" where
  "day d = snd (snd (ord2ymd (day_ordinal d)))"

definition mk_datetime :: "int \<Rightarrow> int \<Rightarrow> int \<Rightarrow> exn + datetime" where
  \<comment> \<open>\<^verbatim>\<open>datetime(year, month, day)\<close>: an argument that does not fit a C int raises
      OverflowError, a date that does not exist raises ValueError\<close>
  "mk_datetime y m d =
     (if \<not> (\<forall>v\<in>set [y, m, d]. - 2147483648 \<le> v \<and> v \<le> 2147483647) then Inl OverflowError
      else if \<not> (1 \<le> y \<and> y \<le> 9999) then Inl ValueError
      else if \<not> (1 \<le> m \<and> m \<le> 12) then Inl ValueError
      else if \<not> (1 \<le> d \<and> d \<le> days_in_month y m) then Inl ValueError
      else Inr \<lparr>day_ordinal = ymd2ord y m d, time_of_day = 0\<rparr>)"

function date_list_loop :: "datetime \<Rightarrow> datetime \<Rightarrow> datetime list \<Rightarrow> exn + datetime list" where
  \<comment> \<open>lines 78-82: the while loop, \<open>date_list\<close> so far in the last argument\<close>
  "date_list_loop current_date end_date date_list =
     (if dt_le current_date end_date then
        (case add_days current_date 1 of
           Inl e \<Rightarrow> Inl e
         | Inr next_date \<Rightarrow> date_list_loop next_date end_date (date_list @ [current_date]))
      else Inr date_list)"
  by pat_completeness auto
termination
proof (relation "measure (\<lambda>(c, e, acc). nat (day_ordinal e + 1 - day_ordinal c))")
  show "wf (measure (\<lambda>(c, e, acc). nat (day_ordinal e + 1 - day_ordinal c)))" by simp
next
  fix current_date end_date :: datetime and date_list :: "datetime list" and next_date
  assume le: "dt_le current_date end_date" and nx: "add_days current_date 1 = Inr next_date"
  from nx have "day_ordinal next_date = day_ordinal current_date + 1"
    by (auto simp: add_days_def Let_def split: if_splits)
  moreover from le have "day_ordinal current_date \<le> day_ordinal end_date"
    by (auto simp: dt_le_def)
  ultimately show "((next_date, end_date, date_list @ [current_date]),
                    (current_date, end_date, date_list))
      \<in> measure (\<lambda>(c, e, acc). nat (day_ordinal e + 1 - day_ordinal c))"
    by simp
qed

declare date_list_loop.simps [simp del]

definition date_list :: "datetime \<Rightarrow> datetime \<Rightarrow> exn + datetime list" where
  "date_list start_date end_date = date_list_loop start_date end_date []"

definition consecutive_days :: "datetime \<Rightarrow> nat \<Rightarrow> datetime list" where
  \<comment> \<open>\<open>n\<close> dates one day apart, the first of them \<open>d\<close>, all at the time of day of \<open>d\<close>\<close>
  "consecutive_days d n = map (\<lambda>k. d\<lparr>day_ordinal := day_ordinal d + int k\<rparr>) [0..<n]"

section \<open>Numbers as text\<close>

definition is_digit :: "char \<Rightarrow> bool" where
  "is_digit c = (let n = (of_char c :: nat) in 48 \<le> n \<and> n \<le> 57)"

definition digit_char :: "nat \<Rightarrow> char" where
  "digit_char k = char_of (48 + k)"

function digits :: "nat \<Rightarrow> string" where
  "digits n = (if n < 10 then [digit_char n] else digits (n div 10) @ [digit_char (n mod 10)])"
  by pat_completeness auto
termination
  by (relation "measure id") auto

declare digits.simps [simp del]

definition str_int :: "int \<Rightarrow> string" where
  \<comment> \<open>\<^verbatim>\<open>f"{i}"\<close>\<close>
  "str_int i = (if i < 0 then ''-'' @ digits (nat (- i)) else digits (nat i))"

definition fmt_02d :: "int \<Rightarrow> string" where
  \<comment> \<open>\<^verbatim>\<open>f"{i:02d}"\<close>\<close>
  "fmt_02d i = (let s = str_int i in replicate (2 - length s) CHR ''0'' @ s)"

definition is_c_space :: "char \<Rightarrow> bool" where
  \<comment> \<open>the characters the numeral parser of \<^verbatim>\<open>int()\<close> skips around a numeral: TAB, LF, VT,
      FF, CR and SPACE, but not FS, GS, RS, US\<close>
  "is_c_space c = (let n = (of_char c :: nat) in (9 \<le> n \<and> n \<le> 13) \<or> n = 32)"

definition py_int :: "string \<Rightarrow> exn + int" where
  \<comment> \<open>\<^verbatim>\<open>int(s)\<close>: white space above 127 (NEL, NBSP) is first turned into a space; then
      white space around, a sign, decimal digits, single underscores between digits, at
      most 4300 digits; anything else raises ValueError\<close>
  "py_int s =
     (let ascii = map (\<lambda>c. if (of_char c :: nat) > 127 \<and> is_space c then CHR '' '' else c) s;
          t = rev (dropWhile is_c_space (rev (dropWhile is_c_space ascii)));
          (negative, body) =
            (case t of
               c # rest \<Rightarrow>
                 if c = CHR ''-'' then (True, rest)
                 else if c = CHR ''+'' then (False, rest)
                 else (False, t)
             | [] \<Rightarrow> (False, t))
      in
        if list_all (\<lambda>g. g \<noteq> [] \<and> list_all is_digit g) (py_split ''_'' body)
           \<and> length (filter is_digit body) \<le> 4300
        then
          (let magnitude =
                 foldl (\<lambda>a c. 10 * a + int ((of_char c :: nat) - 48)) 0 (filter is_digit body)
           in Inr (if negative then - magnitude else magnitude))
        else Inl ValueError)"

section \<open>The bucket and the libraries around it\<close>

text \<open>
  What the class reads through boto3, gzip and pandas is a parameter of the model:
  \<open>list_objects_v2 prefix\<close> is the response of the call on the configured bucket (the keys
  under \<^verbatim>\<open>'Contents'\<close>, or \<open>None\<close> when the response has no \<^verbatim>\<open>'Contents'\<close>),
  \<open>get_object key\<close> the body of an object, \<open>gunzip\<close> the decompression and
  \<open>read_csv\<close> the parser. Each of them may raise.
\<close>

record 'v s3_env =
  list_objects_v2 :: "string \<Rightarrow> exn + string list option"
  get_object :: "string \<Rightarrow> exn + string"
  gunzip :: "string \<Rightarrow> exn + string"
  read_csv :: "string \<Rightarrow> exn + 'v frame"

section \<open>get\_data\_for\_date\_range\<close>

text \<open>
  The state of the two nested loops: the frames read so far, the number of files read,
  and (to speak about the calls the bucket sees) the prefixes listed so far.
\<close>

record 'v load_state =
  all_data :: "'v frame list"
  file_count :: int
  listed :: "string list"

definition limit_reached :: "int option \<Rightarrow> int \<Rightarrow> bool" where
  \<comment> \<open>\<^verbatim>\<open>limit and file_count >= limit\<close>: \<^verbatim>\<open>None\<close> and 0 are false\<close>
  "limit_reached limit n = (case limit of None \<Rightarrow> False | Some l \<Rightarrow> l \<noteq> 0 \<and> n \<ge> l)"

definition partition_prefix :: "string \<Rightarrow> datetime \<Rightarrow> string" where
  \<comment> \<open>line 94\<close>
  "partition_prefix base_path date =
     base_path @ ''year='' @ str_int (year date) @ ''/month='' @ fmt_02d (month date)
       @ ''/day='' @ fmt_02d (day date) @ ''/''"

definition read_frame :: "'v s3_env \<Rightarrow> string \<Rightarrow> exn + 'v frame" where
  \<comment> \<open>lines 107-112: fetch, decompress, parse\<close>
  "read_frame env key =
     (case get_object env key of
        Inl e \<Rightarrow> Inl e
      | Inr file_content \<Rightarrow>
          (case gunzip env file_content of
             Inl e \<Rightarrow> Inl e
           | Inr raw \<Rightarrow> read_csv env raw))"

fun process_objects ::
  "'v s3_env \<Rightarrow> int option \<Rightarrow> string list \<Rightarrow> 'v load_state \<Rightarrow> exn + 'v load_state"
where
  \<comment> \<open>the inner loop, lines 103-117\<close>
  "process_objects env limit [] st = Inr st"
| "process_objects env limit (key # keys) st =
     (if endswith key ''.csv.gz'' then
        (case read_frame env key of
           Inl e \<Rightarrow> Inl e
         | Inr df \<Rightarrow>
             (let st' = st\<lparr>all_data := all_data st @ [df], file_count := file_count st + 1\<rparr> in
              if limit_reached limit (file_count st') then Inr st'
              else process_objects env limit keys st'))
      else process_objects env limit keys st)"

fun process_dates ::
  "'v s3_env \<Rightarrow> string \<Rightarrow> int option \<Rightarrow> datetime list \<Rightarrow> 'v load_state \<Rightarrow> exn + 'v load_state"
where
  \<comment> \<open>the outer loop, lines 88-120\<close>
  "process_dates env base_path limit [] st = Inr st"
| "process_dates env base_path limit (date # dates) st =
     (case list_objects_v2 env (partition_prefix base_path date) of
        Inl e \<Rightarrow> Inl e
      | Inr response \<Rightarrow>
          (case process_objects env limit (case response of None \<Rightarrow> [] | Some keys \<Rightarrow> keys)
                  (st\<lparr>listed := listed st @ [partition_prefix base_path date]\<rparr>) of
             Inl e \<Rightarrow> Inl e
           | Inr st' \<Rightarrow>
               if limit_reached limit (file_count st') then Inr st'
               else process_dates env base_path limit dates st'))"

definition load_frames ::
  "'v s3_env \<Rightarrow> string \<Rightarrow> datetime \<Rightarrow> datetime \<Rightarrow> int option \<Rightarrow> exn + 'v load_state"
where
  \<comment> \<open>lines 77-120\<close>
  "load_frames env base_path start_date end_date limit =
     (case date_list start_date end_date of
        Inl e \<Rightarrow> Inl e
      | Inr dates \<Rightarrow>
          process_dates env base_path limit dates \<lparr>all_data = [], file_count = 0, listed = []\<rparr>)"

definition get_data_for_date_range ::
  "'v s3_env \<Rightarrow> string \<Rightarrow> datetime \<Rightarrow> datetime \<Rightarrow> int option \<Rightarrow> 'v frame"
where
  \<comment> \<open>the \<^verbatim>\<open>try\<close> block and its \<^verbatim>\<open>except Exception\<close>, which prints and returns an empty table\<close>
  "get_data_for_date_range env base_path start_date end_date limit =
     (case (case load_frames env base_path start_date end_date limit of
              Inl e \<Rightarrow> Inl e
            | Inr st \<Rightarrow> combine (all_data st))
      of
        Inl e \<Rightarrow> DataFrame
      | Inr df \<Rightarrow> df)"

section \<open>get\_available\_date\_range\<close>

definition item1 :: "string list \<Rightarrow> exn + string" where
  \<comment> \<open>\<^verbatim>\<open>xs[1]\<close>\<close>
  "item1 xs = (case xs of a # b # rest \<Rightarrow> Inr b | _ \<Rightarrow> Inl IndexError)"

definition int_after_equals :: "string \<Rightarrow> exn + int" where
  \<comment> \<open>\<^verbatim>\<open>int(part.split('=')[1])\<close>\<close>
  "int_after_equals part =
     (case item1 (py_split ''='' part) of Inl e \<Rightarrow> Inl e | Inr v \<Rightarrow> py_int v)"

definition key_datetime :: "string list \<Rightarrow> exn + datetime" where
  \<comment> \<open>lines 43-51, for the parts of a key that has at least four of them\<close>
  "key_datetime parts =
     (case int_after_equals (parts ! 1) of
        Inl e \<Rightarrow> Inl e
      | Inr y \<Rightarrow>
          (case int_after_equals (parts ! 2) of
             Inl e \<Rightarrow> Inl e
           | Inr m \<Rightarrow>
               (case int_after_equals (parts ! 3) of
                  Inl e \<Rightarrow> Inl e
                | Inr d \<Rightarrow> mk_datetime y m d)))"

definition partition_date :: "string \<Rightarrow> exn + datetime option" where
  \<comment> \<open>one round of the loop of lines 37-53: \<open>Inr None\<close> when the key adds no date; an
      exception other than IndexError and ValueError leaves the loop\<close>
  "partition_date key =
     (let parts = py_split ''/'' key in
      if length parts \<ge> 4 then
        (case key_datetime parts of
           Inr d \<Rightarrow> Inr (Some d)
         | Inl IndexError \<Rightarrow> Inr None
         | Inl ValueError \<Rightarrow> Inr None
         | Inl e \<Rightarrow> Inl e)
      else Inr None)"

fun collect_dates :: "string list \<Rightarrow> datetime list \<Rightarrow> exn + datetime list" where
  "collect_dates [] dates = Inr dates"
| "collect_dates (key # keys) dates =
     (case partition_date key of
        Inl e \<Rightarrow> Inl e
      | Inr None \<Rightarrow> collect_dates keys dates
      | Inr (Some d) \<Rightarrow> collect_dates keys (dates @ [d]))"

definition dt_min :: "datetime list \<Rightarrow> datetime" where
  \<comment> \<open>\<^verbatim>\<open>min(dates)\<close> of a non-empty list\<close>
  "dt_min dates = foldl (\<lambda>a b. if dt_le a b then a else b) (hd dates) (tl dates)"

definition dt_max :: "datetime list \<Rightarrow> datetime" where
  \<comment> \<open>\<^verbatim>\<open>max(dates)\<close> of a non-empty list\<close>
  "dt_max dates = foldl (\<lambda>a b. if dt_le b a then a else b) (hd dates) (tl dates)"

definition get_available_date_range ::
  "'v s3_env \<Rightarrow> string \<Rightarrow> datetime option \<times> datetime option"
where
  "get_available_date_range env base_path =
     (case list_objects_v2 env base_path of
        Inl e \<Rightarrow> (None, None)
      | Inr None \<Rightarrow> (None, None)
      | Inr (Some keys) \<Rightarrow>
          (case collect_dates keys [] of
             Inl e \<Rightarrow> (None, None)
           | Inr dates \<Rightarrow>
               if dates = [] then (None, None) else (Some (dt_min dates), Some (dt_max dates))))"

section \<open>Example tables\<close>

definition people :: "int frame" where
  "people = \<lparr>nrows = 2,
              cols = [(''id'', [Some 1, Some 2]), (''Name'', [Some 10, None]),
                      (''selected_at'', [Some 7, Some 8]), (''city'', [None, Some 3])]\<rparr>"

definition keep_all :: "int frame \<Rightarrow> string \<Rightarrow> exn + int frame" where
  \<comment> \<open>a stand-in for \<^verbatim>\<open>DataFrame.query\<close> that keeps every row\<close>
  "keep_all result w = Inr result"

definition echo_filter :: "int frame \<Rightarrow> string \<Rightarrow> exn + int frame" where
  \<comment> \<open>a stand-in for \<^verbatim>\<open>DataFrame.query\<close> that fails and shows the filter string it was given\<close>
  "echo_filter result w = Inl (Raised w)"



definition example_dtype :: "int option list \<Rightarrow> string" where
  "example_dtype vs = (if list_all (\<lambda>v. v \<noteq> None) vs then ''int64'' else ''float64'')"

definition example_cell :: "int option \<Rightarrow> string" where
  \<comment> \<open>the text of a missing value and of a cell of an int64 column\<close>
  "example_cell v = (case v of None \<Rightarrow> ''nan'' | Some i \<Rightarrow> str_int i)"

section \<open>An example bucket\<close>

definition mar5 :: datetime where
  \<comment> \<open>2024-03-05 00:00\<close>
  "mar5 = \<lparr>day_ordinal = 738950, time_of_day = 0\<rparr>"

definition mar6 :: datetime where
  "mar6 = \<lparr>day_ordinal = 738951, time_of_day = 0\<rparr>"

definition mar7 :: datetime where
  "mar7 = \<lparr>day_ordinal = 738952, time_of_day = 0\<rparr>"

definition last_day :: datetime where
  \<comment> \<open>9999-12-31 00:00\<close>
  "last_day = \<lparr>day_ordinal = 3652059, time_of_day = 0\<rparr>"

definition frame_ab :: "int frame" where
  "frame_ab = \<lparr>nrows = 2, cols = [(''A'', [Some 1, Some 2]), (''B'', [Some 3, Some 4])]\<rparr>"

definition frame_bc :: "int frame" where
  "frame_bc = \<lparr>nrows = 1, cols = [(''B'', [Some 5]), (''C'', [Some 6])]\<rparr>"

definition example_env :: "int s3_env" where
  \<comment> \<open>four partitions; the body of an object is written as its key; \<^verbatim>\<open>b.csv.gz\<close> is not a
      gzip file\<close>
  "example_env =
     \<lparr>list_objects_v2 = (\<lambda>p.
          if p = ''csv-data/'' then
            Inr (Some [''csv-data/year=2024/month=03/day=05/a.csv.gz'',
                       ''csv-data/year=2024/month=03/day=05/notes.txt'',
                       ''csv-data/year=2024/month=03/day=05/b.csv.gz'',
                       ''csv-data/year=2024/month=03/day=06/c.csv.gz'',
                       ''csv-data/year=2024/month=03/day=06/d.csv.gz'',
                       ''csv-data/year=2024/month=03/day=07/e.csv.gz'',
                       ''csv-data/year=9999/month=12/day=31/z.csv.gz''])
          else if p = ''csv-data/year=2024/month=03/day=05/'' then
            Inr (Some [''csv-data/year=2024/month=03/day=05/a.csv.gz'',
                       ''csv-data/year=2024/month=03/day=05/notes.txt'',
                       ''csv-data/year=2024/month=03/day=05/b.csv.gz''])
          else if p = ''csv-data/year=2024/month=03/day=06/'' then
            Inr (Some [''csv-data/year=2024/month=03/day=06/c.csv.gz'',
                       ''csv-data/year=2024/month=03/day=06/d.csv.gz''])
          else if p = ''csv-data/year=2024/month=03/day=07/'' then
            Inr (Some [''csv-data/year=2024/month=03/day=07/e.csv.gz''])
          else if p = ''csv-data/year=9999/month=12/day=31/'' then
            Inr (Some [''csv-data/year=9999/month=12/day=31/z.csv.gz''])
          else Inr None),
      get_object = (\<lambda>key. Inr key),
      gunzip = (\<lambda>body. if endswith body ''b.csv.gz'' then Inl (Raised ''BadGzipFile'')
                         else Inr body),
      read_csv = (\<lambda>raw. if endswith raw ''d.csv.gz'' then Inr frame_bc else Inr frame_ab)\<rparr>"

definition failing_env :: "int s3_env" where
  \<comment> \<open>a bucket that cannot be reached\<close>
  "failing_env =
     \<lparr>list_objects_v2 = (\<lambda>p. Inl (Raised ''EndpointConnectionError'')),
      get_object = (\<lambda>key. Inl (Raised ''EndpointConnectionError'')),
      gunzip = (\<lambda>body. Inr body),
      read_csv = (\<lambda>raw. Inr frame_ab)\<rparr>"

definition empty_env :: "int s3_env" where
  \<comment> \<open>a bucket without objects\<close>
  "empty_env =
     \<lparr>list_objects_v2 = (\<lambda>p. Inr None),
      get_object = (\<lambda>key. Inl (Raised ''NoSuchKey'')),
      gunzip = (\<lambda>body. Inr body),
      read_csv = (\<lambda>raw. Inr frame_ab)\<rparr>"

definition junk_env :: "int s3_env" where
  \<comment> \<open>a bucket whose keys name no partition\<close>
  "junk_env =
     \<lparr>list_objects_v2 = (\<lambda>p. Inr (Some [''csv-data/readme.txt'',
                                           ''csv-data/year=x/month=1/day=2/f.csv.gz'',
                                           ''csv-data/year=2024/month=02/day=30/f.csv.gz''])),
      get_object = (\<lambda>key. Inr key),
      gunzip = (\<lambda>body. Inr body),
      read_csv = (\<lambda>raw. Inr frame_ab)\<rparr>"

section \<open>Facts about the string operations\<close>

lemma split_from_not_Nil: "split_from sep cur s \<noteq> []"
  by (induction sep cur s rule: split_from.induct) auto

lemma split_from_absent:
  "\<not> contains sep s \<Longrightarrow> split_from sep cur s = [cur @ s]"
  by (induction s arbitrary: cur) auto

lemma split_from_skip:
  "(\<forall>i<length pre. \<not> startswith (drop i (pre @ rest)) sep)
     \<Longrightarrow> split_from sep cur (pre @ rest) = split_from sep (cur @ pre) rest"
proof (induction pre arbitrary: cur)
  case Nil
  then show ?case by simp
next
  case (Cons p ps)
  from Cons.prems have here: "\<not> startswith (p # ps @ rest) sep"
    by (metis append_Cons drop0 length_greater_0_conv list.distinct(1))
  have later: "\<forall>i<length ps. \<not> startswith (drop i (ps @ rest)) sep"
  proof (intro allI impI)
    fix i assume "i < length ps"
    then have "Suc i < length (p # ps)" by simp
    with Cons.prems have "\<not> startswith (drop (Suc i) ((p # ps) @ rest)) sep" by blast
    then show "\<not> startswith (drop i (ps @ rest)) sep" by simp
  qed
  show ?case
    using here Cons.IH [OF later, of "cur @ [p]"] by simp
qed

lemma startswith_append: "startswith (sep @ post) sep"
  by (induction sep) auto

lemma split_from_at:
  assumes "sep \<noteq> []"
  shows "split_from sep cur (sep @ post) = cur # split_from sep [] post"
proof -
  obtain c cs where sep: "sep = c # cs" using assms by (cases sep) auto
  have "startswith ((c # cs) @ post) (c # cs)" by (rule startswith_append)
  then show ?thesis
    using sep by simp
qed

lemma split_from_first:
  assumes "sep \<noteq> []"
    and "\<forall>i<length pre. \<not> startswith (drop i (pre @ sep @ post)) sep"
  shows "split_from sep cur (pre @ sep @ post) = (cur @ pre) # split_from sep [] post"
  using split_from_skip [OF assms(2), of cur] split_from_at [OF assms(1)] by simp

lemma split_from_two:
  "sep \<noteq> [] \<Longrightarrow> contains sep s \<Longrightarrow> \<exists>a b rest. split_from sep cur s = a # b # rest"
proof (induction s arbitrary: cur)
  case Nil
  then show ?case by simp
next
  case (Cons c cs)
  show ?case
  proof (cases "startswith (c # cs) sep")
    case True
    obtain b rest where "split_from sep [] (drop (length sep) (c # cs)) = b # rest"
      using split_from_not_Nil by (meson list.exhaust)
    with True Cons.prems(1) show ?thesis by simp
  next
    case False
    with Cons.prems have "contains sep cs" by simp
    from Cons.IH [OF Cons.prems(1) this, of "cur @ [c]"] False show ?thesis by simp
  qed
qed

lemma set_split_from:
  "set (concat (split_from sep cur s)) \<subseteq> set cur \<union> set s"
proof (induction sep cur s rule: split_from.induct)
  case (1 sep cur)
  then show ?case by simp
next
  case (2 sep cur c cs)
  show ?case
  proof (cases "sep \<noteq> [] \<and> startswith (c # cs) sep")
    case True
    have "set (drop (length sep) (c # cs)) \<subseteq> set (c # cs)" by (rule set_drop_subset)
    with True 2(1) show ?thesis by auto
  next
    case False
    with 2(2) show ?thesis by auto
  qed
qed

lemma set_replace_Nil: "set (replace old [] s) \<subseteq> set s"
proof (induction old "[] :: string" s rule: replace.induct)
  case (1 old)
  then show ?case by simp
next
  case (2 old c cs)
  show ?case
  proof (cases "old \<noteq> [] \<and> startswith (c # cs) old")
    case True
    have "set (drop (length old) (c # cs)) \<subseteq> set (c # cs)" by (rule set_drop_subset)
    with True 2(1) show ?thesis by auto
  next
    case False
    with 2(2) show ?thesis by auto
  qed
qed

lemma set_strip: "set (strip s) \<subseteq> set s"
proof -
  have "set (strip s) \<subseteq> set (rev (dropWhile is_space s))"
    unfolding strip_def using set_dropWhileD by fastforce
  also have "\<dots> \<subseteq> set s"
    using set_dropWhileD by fastforce
  finally show ?thesis .
qed

lemma lower_char_not_upper: "\<not> is_upper (lower_char c)"
  by (simp add: lower_char_def is_upper_def Let_def)

lemma lower_not_upper: "c \<in> set (lower s) \<Longrightarrow> \<not> is_upper c"
  by (auto simp: lower_def lower_char_not_upper)

lemma startswith_set: "startswith s p \<Longrightarrow> set p \<subseteq> set s"
  by (induction s p rule: startswith.induct) auto

lemma contains_set: "contains sub s \<Longrightarrow> set sub \<subseteq> set s"
proof (induction s)
  case Nil
  then show ?case by simp
next
  case (Cons c cs)
  show ?case
  proof (cases "startswith (c # cs) sub")
    case True
    then show ?thesis by (rule startswith_set)
  next
    case False
    with Cons.prems have "contains sub cs" by simp
    then have "set sub \<subseteq> set cs" by (rule Cons.IH)
    then show ?thesis by auto
  qed
qed

lemma startswith_single: "startswith s [c] \<longleftrightarrow> s \<noteq> [] \<and> hd s = c"
  by (cases s) auto

lemma split_from_char_absent:
  "c \<notin> set x \<Longrightarrow> split_from [c] cur x = [cur @ x]"
  using contains_set [of "[c]" x] by (intro split_from_absent) auto

lemma split_from_char_first:
  assumes "c \<notin> set x"
  shows "split_from [c] cur (x @ [c] @ rest) = (cur @ x) # split_from [c] [] rest"
proof (rule split_from_first)
  show "[c] \<noteq> []" by simp
  show "\<forall>i<length x. \<not> startswith (drop i (x @ [c] @ rest)) [c]"
  proof (intro allI impI)
    fix i assume i: "i < length x"
    then have "hd (drop i (x @ [c] @ rest)) = x ! i"
      by (simp add: hd_drop_conv_nth nth_append)
    moreover have "x ! i \<noteq> c" using assms i by (metis nth_mem)
    ultimately show "\<not> startswith (drop i (x @ [c] @ rest)) [c]"
      by (simp add: startswith_single)
  qed
qed

lemma split_join_char:
  assumes "xs \<noteq> []" and "\<forall>x\<in>set xs. c \<notin> set x"
  shows "split_from [c] cur (py_join [c] xs) = (cur @ hd xs) # tl xs"
  using assms
proof (induction "[c]" xs arbitrary: cur rule: py_join.induct)
  case 1
  then show ?case by simp
next
  case (2 x)
  then show ?case by (simp add: split_from_char_absent)
next
  case (3 x y ys)
  have "split_from [c] cur (x @ [c] @ py_join [c] (y # ys))
          = (cur @ x) # split_from [c] [] (py_join [c] (y # ys))"
    using 3(3) by (intro split_from_char_first) simp
  also have "split_from [c] [] (py_join [c] (y # ys)) = ([] @ hd (y # ys)) # tl (y # ys)"
    using 3(3) by (intro 3(1)) simp_all
  finally show ?case by simp
qed

lemma py_split_join_char:
  assumes "xs \<noteq> []" and "\<forall>x\<in>set xs. c \<notin> set x"
  shows "py_split [c] (py_join [c] xs) = xs"
  using split_join_char [OF assms, of "[]"] assms(1) by (simp add: py_split_def)

lemma contains_append: "contains sep (pre @ sep @ post)"
proof (induction pre)
  case Nil
  show ?case
  proof (cases "sep @ post")
    case Nil
    then show ?thesis by simp
  next
    case (Cons c cs)
    have "startswith (sep @ post) sep" by (rule startswith_append)
    with Cons show ?thesis by simp
  qed
next
  case (Cons p ps)
  then show ?case by simp
qed

lemma py_split_piece:
  assumes "p \<in> set (py_split sep s)"
  shows "set p \<subseteq> set s"
proof -
  have "set p \<subseteq> set (concat (split_from sep [] s))"
    using assms by (auto simp: py_split_def)
  also have "\<dots> \<subseteq> set s"
    using set_split_from [of sep "[]" s] by simp
  finally show ?thesis .
qed

lemma py_split_first:
  assumes "sep \<noteq> []"
    and "s = pre @ sep @ post"
    and "\<forall>i<length pre. \<not> startswith (drop i s) sep"
  shows "py_split sep s = pre # py_split sep post"
  using split_from_first [OF assms(1), of pre post "[]"] assms(2,3)
  by (simp add: py_split_def)

lemma py_split_absent: "\<not> contains sep s \<Longrightarrow> py_split sep s = [s]"
  by (simp add: py_split_def split_from_absent)

lemma py_split_not_Nil: "py_split sep s \<noteq> []"
  by (simp add: py_split_def split_from_not_Nil)

section \<open>Facts about tables\<close>

lemma filter_label_distinct:
  "distinct (map fst xs) \<Longrightarrow> c \<in> set (map fst xs)
     \<Longrightarrow> filter (\<lambda>(n, vs). n = c) xs = [(c, the (map_of xs c))]"
proof (induction xs)
  case Nil
  then show ?case by simp
next
  case (Cons x xs)
  obtain n vs where x: "x = (n, vs)" by (cases x)
  show ?case
  proof (cases "n = c")
    case True
    with Cons.prems x have "c \<notin> set (map fst xs)" by simp
    then have "filter (\<lambda>(n, vs). n = c) xs = []"
      by (force simp: filter_empty_conv)
    with True x show ?thesis by simp
  next
    case False
    with Cons.prems x have "distinct (map fst xs)" and "c \<in> set (map fst xs)" by auto
    from Cons.IH [OF this] False x show ?thesis by simp
  qed
qed

lemma getitem_present:
  assumes "set cs \<subseteq> set (columns df)" and "distinct (columns df)"
  shows "getitem df cs =
           Inr \<lparr>nrows = nrows df, cols = map (\<lambda>c. (c, the (map_of (cols df) c))) cs\<rparr>"
proof -
  have none: "filter (\<lambda>l. l \<notin> set (columns df)) cs = []"
    using assms(1) by (auto simp: filter_empty_conv)
  have each: "\<And>c. c \<in> set cs \<Longrightarrow>
      filter (\<lambda>(n, vs). n = c) (cols df) = [(c, the (map_of (cols df) c))]"
    using assms unfolding columns_def by (intro filter_label_distinct) auto
  have "concat (map (\<lambda>l. filter (\<lambda>(n, vs). n = l) (cols df)) cs)
          = concat (map (\<lambda>c. [(c, the (map_of (cols df) c))]) cs)"
    using each by (intro arg_cong [where f = concat] map_cong) auto
  also have "\<dots> = map (\<lambda>c. (c, the (map_of (cols df) c))) cs"
    by (induction cs) auto
  finally show ?thesis
    using none by (simp add: getitem_def)
qed

lemma getitem_missing:
  assumes "\<not> set cs \<subseteq> set (columns df)"
  shows "getitem df cs = Inl (KeyError (filter (\<lambda>c. c \<notin> set (columns df)) cs))"
    and "filter (\<lambda>c. c \<notin> set (columns df)) cs \<noteq> []"
proof -
  show ne: "filter (\<lambda>c. c \<notin> set (columns df)) cs \<noteq> []"
    using assms by (auto simp: filter_empty_conv)
  then show "getitem df cs = Inl (KeyError (filter (\<lambda>c. c \<notin> set (columns df)) cs))"
    by (simp add: getitem_def)
qed

lemma getitem_columns:
  assumes "getitem df cs = Inr p"
  shows "set (columns p) \<subseteq> set cs" and "nrows p = nrows df"
proof -
  from assms have p: "p = \<lparr>nrows = nrows df,
      cols = concat (map (\<lambda>l. filter (\<lambda>(n, vs). n = l) (cols df)) cs)\<rparr>"
    by (auto simp: getitem_def Let_def split: if_splits)
  show "nrows p = nrows df" by (simp add: p)
  show "set (columns p) \<subseteq> set cs"
    by (auto simp: p columns_def)
qed

section \<open>Facts about execute\_query\<close>

lemma py_split_where_two:
  "contains ''where'' s \<Longrightarrow> \<exists>a b rest. py_split ''where'' s = a # b # rest"
  unfolding py_split_def by (rule split_from_two) simp_all

lemma execute_query_parse:
  assumes "startswith (lower (strip query)) ''select''"
  shows "execute_query pd_query df query =
     (case
        (case select_columns df (columns_str (strip query)) of
           Inl e \<Rightarrow> Inl e
         | Inr result \<Rightarrow>
             (case where_part (strip query) of
                None \<Rightarrow> Inr result
              | Some w \<Rightarrow> pd_query result w))
      of
        Inl e \<Rightarrow> (DataFrame, Some (ErrorExecutingQuery e))
      | Inr result \<Rightarrow> (result, None))"
proof (cases "contains ''where'' (lower (strip query))")
  case True
  then obtain a b rest where sp: "py_split ''where'' (lower (strip query)) = a # b # rest"
    using py_split_where_two by blast
  show ?thesis
    using assms True sp
    by (simp add: execute_query_def select_part_def where_part_def columns_str_def
        split: sum.splits)
next
  case False
  show ?thesis
    using assms False
    by (simp add: execute_query_def select_part_def where_part_def columns_str_def
        split: sum.splits)
qed

lemma new_object_nth: "new_object h f = (h', r) \<Longrightarrow> h' = h @ [f] \<and> r = length h"
  by (auto simp: new_object_def)


text \<open>The statement cut at the first \<^verbatim>\<open>where\<close>.\<close>

lemma pieces_first_where:
  assumes "lower query = pre @ ''where'' @ post"
    and "\<forall>i<length pre. \<not> startswith (drop i (lower query)) ''where''"
  shows "select_part query = pre"
    and "where_part query = Some (hd (py_split ''where'' post))"
proof -
  have c: "contains ''where'' (lower query)"
    unfolding assms(1) by (rule contains_append)
  have sp: "py_split ''where'' (lower query) = pre # py_split ''where'' post"
    using assms by (intro py_split_first) simp_all
  show "select_part query = pre"
    using c sp by (simp add: select_part_def)
  have "(pre # py_split ''where'' post) ! 1 = hd (py_split ''where'' post)"
    using py_split_not_Nil [of "''where''" post] by (simp add: hd_conv_nth)
  then show "where_part query = Some (hd (py_split ''where'' post))"
    using c sp by (simp add: where_part_def)
qed

lemma pieces_no_where:
  assumes "\<not> contains ''where'' (lower query)"
  shows "select_part query = lower query" and "where_part query = None"
  using assms by (simp_all add: select_part_def where_part_def)

text \<open>Every piece is cut out of the lowered statement, so it holds no upper-case letter.\<close>

lemma select_part_chars: "set (select_part query) \<subseteq> set (lower query)"
proof (cases "contains ''where'' (lower query)")
  case True
  have "hd (py_split ''where'' (lower query)) \<in> set (py_split ''where'' (lower query))"
    using py_split_not_Nil by (intro hd_in_set)
  then show ?thesis
    using True py_split_piece by (simp add: select_part_def)
next
  case False
  then show ?thesis by (simp add: select_part_def)
qed

lemma where_part_chars:
  assumes "where_part query = Some w"
  shows "set w \<subseteq> set (lower query)"
proof -
  from assms have c: "contains ''where'' (lower query)"
    and w: "w = py_split ''where'' (lower query) ! 1"
    by (auto simp: where_part_def split: if_splits)
  from py_split_where_two [OF c] obtain a b rest
    where "py_split ''where'' (lower query) = a # b # rest" by blast
  then have "w \<in> set (py_split ''where'' (lower query))"
    using w by simp
  then show ?thesis by (rule py_split_piece)
qed

lemma columns_str_chars: "set (columns_str query) \<subseteq> set (lower query)"
proof -
  have "set (columns_str query) \<subseteq> set (replace ''select'' [] (select_part query))"
    unfolding columns_str_def by (rule set_strip)
  also have "\<dots> \<subseteq> set (select_part query)" by (rule set_replace_Nil)
  also have "\<dots> \<subseteq> set (lower query)" by (rule select_part_chars)
  finally show ?thesis .
qed

lemma requested_columns_chars:
  assumes "requested_columns query = Some cs" and "name \<in> set cs"
  shows "set name \<subseteq> set (lower query)"
proof -
  from assms obtain piece where piece: "piece \<in> set (py_split '','' (columns_str query))"
    and name: "name = strip piece"
    by (auto simp: requested_columns_def split: if_splits)
  have "set name \<subseteq> set piece" unfolding name by (rule set_strip)
  also have "\<dots> \<subseteq> set (columns_str query)" using piece by (rule py_split_piece)
  also have "\<dots> \<subseteq> set (lower query)" by (rule columns_str_chars)
  finally show ?thesis .
qed

lemma select_columns_requested:
  "select_columns df (columns_str query) =
     (case requested_columns query of None \<Rightarrow> Inr df | Some cs \<Rightarrow> getitem df cs)"
  by (simp add: select_columns_def requested_columns_def df_copy_def)

lemma execute_query_pieces:
  assumes "startswith (lower (strip query)) ''select''"
  shows "execute_query pd_query df query =
     (case (case requested_columns (strip query) of
              None \<Rightarrow> Inr df
            | Some cs \<Rightarrow> getitem df cs)
      of
        Inl e \<Rightarrow> (DataFrame, Some (ErrorExecutingQuery e))
      | Inr result \<Rightarrow>
          (case where_part (strip query) of
             None \<Rightarrow> (result, None)
           | Some w \<Rightarrow>
               (case pd_query result w of
                  Inl e \<Rightarrow> (DataFrame, Some (ErrorExecutingQuery e))
                | Inr filtered \<Rightarrow> (filtered, None))))"
  unfolding execute_query_parse [OF assms] select_columns_requested
  by (simp split: sum.splits option.splits)

lemma where_part_first:
  assumes "lower query = pre @ ''where'' @ post"
    and "\<forall>i<length pre. \<not> startswith (drop i (lower query)) ''where''"
  shows "\<not> contains ''where'' post \<Longrightarrow> where_part query = Some post"
    and "post = mid @ ''where'' @ tail
           \<Longrightarrow> \<forall>i<length mid. \<not> startswith (drop i post) ''where''
           \<Longrightarrow> where_part query = Some mid"
proof -
  note w = pieces_first_where(2) [OF assms]
  show "where_part query = Some post" if "\<not> contains ''where'' post"
    using w py_split_absent [OF that] by simp
  show "where_part query = Some mid"
    if "post = mid @ ''where'' @ tail" and "\<forall>i<length mid. \<not> startswith (drop i post) ''where''"
  proof -
    have "py_split ''where'' post = mid # py_split ''where'' tail"
      using that by (intro py_split_first) simp_all
    with w show ?thesis by simp
  qed
qed

lemma requested_columns_join:
  assumes "columns_str query = py_join '','' names"
    and "columns_str query \<noteq> ''*''"
    and "names \<noteq> []"
    and "\<forall>n\<in>set names. CHR '','' \<notin> set n"
  shows "requested_columns query = Some (map strip names)"
  using assms py_split_join_char [of names "CHR '',''"]
  by (simp add: requested_columns_def)

section \<open>Facts about execute\_query over the store\<close>






section \<open>Facts about the date loop\<close>

lemma dt_le_timedelta: "dt_le c e \<longleftrightarrow> 0 \<le> timedelta_days e c"
  by (auto simp: dt_le_def timedelta_days_def)

lemma days_from_Suc:
  "map (\<lambda>k. c\<lparr>day_ordinal := day_ordinal c + int k\<rparr>) [0..<Suc m]
     = c # map (\<lambda>k. c\<lparr>day_ordinal := day_ordinal c + 1 + int k\<rparr>) [0..<m]"
proof -
  have "[0..<Suc m] = 0 # map Suc [0..<m]"
    by (simp add: upt_conv_Cons map_Suc_upt del: upt_Suc)
  then have "map (\<lambda>k. c\<lparr>day_ordinal := day_ordinal c + int k\<rparr>) [0..<Suc m]
      = c\<lparr>day_ordinal := day_ordinal c + int 0\<rparr>
          # map (\<lambda>k. c\<lparr>day_ordinal := day_ordinal c + int (Suc k)\<rparr>) [0..<m]"
    by (simp only: list.map map_map comp_def)
  then show ?thesis by (simp add: add.assoc)
qed

lemma date_list_loop_run:
  assumes "timedelta_days e c = int m - 1"
    and "1 \<le> day_ordinal c"
    and "m = 0 \<or> day_ordinal c + int m \<le> MAXORDINAL"
  shows "date_list_loop c e acc
           = Inr (acc @ map (\<lambda>k. c\<lparr>day_ordinal := day_ordinal c + int k\<rparr>) [0..<m])"
  using assms
proof (induction m arbitrary: c acc)
  case 0
  then have "\<not> dt_le c e" by (simp add: dt_le_timedelta)
  then show ?case by (simp add: date_list_loop.simps)
next
  case (Suc m)
  define nxt where "nxt = c\<lparr>day_ordinal := day_ordinal c + 1\<rparr>"
  from Suc.prems have le: "dt_le c e" by (simp add: dt_le_timedelta)
  from Suc.prems have step: "add_days c 1 = Inr nxt"
    by (simp add: add_days_def nxt_def)
  have "timedelta_days e nxt = int m - 1"
    using Suc.prems(1) by (simp add: timedelta_days_def nxt_def)
  moreover have "1 \<le> day_ordinal nxt"
    using Suc.prems(2) by (simp add: nxt_def)
  moreover have "m = 0 \<or> day_ordinal nxt + int m \<le> MAXORDINAL"
    using Suc.prems(3) by (simp add: nxt_def)
  ultimately have "date_list_loop nxt e (acc @ [c])
      = Inr ((acc @ [c]) @ map (\<lambda>k. nxt\<lparr>day_ordinal := day_ordinal nxt + int k\<rparr>) [0..<m])"
    by (rule Suc.IH)
  moreover have "date_list_loop c e acc = date_list_loop nxt e (acc @ [c])"
    using le step by (subst date_list_loop.simps) simp
  ultimately show ?case
    by (simp add: days_from_Suc nxt_def del: upt_Suc)
qed

lemma date_list_overflow:
  assumes "dt_le c e" and "day_ordinal c = MAXORDINAL"
  shows "date_list_loop c e acc = Inl OverflowError"
  using assms by (subst date_list_loop.simps) (simp add: add_days_def)

section \<open>Facts about the two loading loops\<close>

lemma limit_unset: "limit = None \<or> limit = Some 0 \<Longrightarrow> \<not> limit_reached limit n"
  by (auto simp: limit_reached_def)

lemma process_objects_listed:
  "process_objects env limit keys st = Inr st' \<Longrightarrow> listed st' = listed st"
proof (induction keys arbitrary: st)
  case Nil
  then show ?case by simp
next
  case (Cons key keys)
  show ?case
  proof (cases "endswith key ''.csv.gz''")
    case False
    with Cons show ?thesis by simp
  next
    case True
    show ?thesis
    proof (cases "read_frame env key")
      case (Inl e)
      with True Cons.prems show ?thesis by simp
    next
      case (Inr df)
      define st1 where
        "st1 = st\<lparr>all_data := all_data st @ [df], file_count := file_count st + 1\<rparr>"
      have l1: "listed st1 = listed st" by (simp add: st1_def)
      show ?thesis
      proof (cases "limit_reached limit (file_count st1)")
        case True
        with \<open>endswith key ''.csv.gz''\<close> Inr Cons.prems have "st' = st1"
          by (simp add: st1_def Let_def)
        with l1 show ?thesis by simp
      next
        case False
        with \<open>endswith key ''.csv.gz''\<close> Inr Cons.prems
        have "process_objects env limit keys st1 = Inr st'"
          by (simp add: st1_def Let_def)
        from Cons.IH [OF this] l1 show ?thesis by simp
      qed
    qed
  qed
qed

lemma process_dates_listed:
  "process_dates env base_path limit dates st = Inr st'
     \<Longrightarrow> \<exists>k\<le>length dates.
           listed st' = listed st @ map (partition_prefix base_path) (take k dates)"
proof (induction dates arbitrary: st)
  case Nil
  then show ?case by simp
next
  case (Cons date dates)
  from Cons.prems obtain response where
    r: "list_objects_v2 env (partition_prefix base_path date) = Inr response"
    by (auto split: sum.splits)
  define st0 where "st0 = st\<lparr>listed := listed st @ [partition_prefix base_path date]\<rparr>"
  from Cons.prems r obtain st1 where
    p: "process_objects env limit (case response of None \<Rightarrow> [] | Some keys \<Rightarrow> keys) st0 = Inr st1"
    by (auto simp: st0_def split: sum.splits)
  have l1: "listed st1 = listed st @ [partition_prefix base_path date]"
    using process_objects_listed [OF p] by (simp add: st0_def)
  show ?case
  proof (cases "limit_reached limit (file_count st1)")
    case True
    with Cons.prems r p have "st' = st1" by (simp add: st0_def)
    with l1 have "listed st' = listed st @ map (partition_prefix base_path) (take 1 (date # dates))"
      by simp
    then show ?thesis by (intro exI [of _ 1]) simp
  next
    case False
    with Cons.prems r p have "process_dates env base_path limit dates st1 = Inr st'"
      by (simp add: st0_def)
    from Cons.IH [OF this] obtain k where "k \<le> length dates"
      and "listed st' = listed st1 @ map (partition_prefix base_path) (take k dates)"
      by blast
    with l1 have "Suc k \<le> length (date # dates)"
      and "listed st' = listed st @ map (partition_prefix base_path) (take (Suc k) (date # dates))"
      by simp_all
    then show ?thesis by blast
  qed
qed

lemma process_dates_listed_all:
  assumes "limit = None \<or> limit = Some 0"
  shows "process_dates env base_path limit dates st = Inr st'
     \<Longrightarrow> listed st' = listed st @ map (partition_prefix base_path) dates"
proof (induction dates arbitrary: st)
  case Nil
  then show ?case by simp
next
  case (Cons date dates)
  from Cons.prems obtain response where
    r: "list_objects_v2 env (partition_prefix base_path date) = Inr response"
    by (auto split: sum.splits)
  define st0 where "st0 = st\<lparr>listed := listed st @ [partition_prefix base_path date]\<rparr>"
  from Cons.prems r obtain st1 where
    p: "process_objects env limit (case response of None \<Rightarrow> [] | Some keys \<Rightarrow> keys) st0 = Inr st1"
    by (auto simp: st0_def split: sum.splits)
  have l1: "listed st1 = listed st @ [partition_prefix base_path date]"
    using process_objects_listed [OF p] by (simp add: st0_def)
  have "\<not> limit_reached limit (file_count st1)" using assms by (rule limit_unset)
  with Cons.prems r p have "process_dates env base_path limit dates st1 = Inr st'"
    by (simp add: st0_def)
  from Cons.IH [OF this] l1 show ?case by simp
qed

text \<open>
  Where the outer loop stops: after the first date whose files bring the count to the
  limit, or after the last date.
\<close>

lemma process_dates_step:
  assumes "list_objects_v2 env (partition_prefix base_path date) = Inr response"
    and "process_objects env limit (case response of None \<Rightarrow> [] | Some keys \<Rightarrow> keys)
           (st0\<lparr>listed := listed st0 @ [partition_prefix base_path date]\<rparr>) = Inr st1"
    and "\<not> limit_reached limit (file_count st1)"
  shows "process_dates env base_path limit (date # ds) st0
           = process_dates env base_path limit ds st1"
  using assms by simp

lemma process_dates_stop:
  assumes "process_dates env base_path limit dates st0 = Inr st" and "dates \<noteq> []"
  shows "\<exists>k. 1 \<le> k \<and> k \<le> length dates
           \<and> listed st = listed st0 @ map (partition_prefix base_path) (take k dates)
           \<and> process_dates env base_path limit (take k dates) st0 = Inr st
           \<and> (k < length dates \<longrightarrow> limit_reached limit (file_count st))
           \<and> (\<forall>j. 1 \<le> j \<and> j < k \<longrightarrow>
                 (\<exists>stj. process_dates env base_path limit (take j dates) st0 = Inr stj
                        \<and> \<not> limit_reached limit (file_count stj)))"
  using assms
proof (induction dates arbitrary: st0)
  case Nil
  then show ?case by simp
next
  case (Cons date dates)
  from Cons.prems(1) obtain response where
    r: "list_objects_v2 env (partition_prefix base_path date) = Inr response"
    by (auto split: sum.splits)
  from Cons.prems(1) r obtain st1 where
    p: "process_objects env limit (case response of None \<Rightarrow> [] | Some keys \<Rightarrow> keys)
          (st0\<lparr>listed := listed st0 @ [partition_prefix base_path date]\<rparr>) = Inr st1"
    by (auto split: sum.splits)
  have l1: "listed st1 = listed st0 @ [partition_prefix base_path date]"
    using process_objects_listed [OF p] by simp
  have one: "process_dates env base_path limit [date] st0 = Inr st1"
    using r p by simp
  show ?case
  proof (cases "limit_reached limit (file_count st1) \<or> dates = []")
    case True
    with Cons.prems(1) r p have st: "st = st1" by (auto split: if_splits)
    have "1 \<le> (1::nat) \<and> 1 \<le> length (date # dates)
        \<and> listed st = listed st0 @ map (partition_prefix base_path) (take 1 (date # dates))
        \<and> process_dates env base_path limit (take 1 (date # dates)) st0 = Inr st
        \<and> (1 < length (date # dates) \<longrightarrow> limit_reached limit (file_count st))
        \<and> (\<forall>j. 1 \<le> j \<and> j < 1 \<longrightarrow>
              (\<exists>stj. process_dates env base_path limit (take j (date # dates)) st0 = Inr stj
                     \<and> \<not> limit_reached limit (file_count stj)))"
      using True st l1 one by auto
    then show ?thesis by blast
  next
    case False
    then have nl: "\<not> limit_reached limit (file_count st1)" and ne: "dates \<noteq> []" by auto
    note step = process_dates_step [OF r p nl]
    from Cons.prems(1) have run: "process_dates env base_path limit dates st1 = Inr st"
      by (simp only: step)
    from Cons.IH [OF run ne] obtain k where k: "1 \<le> k" "k \<le> length dates"
      and lk: "listed st = listed st1 @ map (partition_prefix base_path) (take k dates)"
      and pk: "process_dates env base_path limit (take k dates) st1 = Inr st"
      and sk: "k < length dates \<longrightarrow> limit_reached limit (file_count st)"
      and jk: "\<forall>j. 1 \<le> j \<and> j < k \<longrightarrow>
                 (\<exists>stj. process_dates env base_path limit (take j dates) st1 = Inr stj
                        \<and> \<not> limit_reached limit (file_count stj))"
      by blast
    have a: "listed st = listed st0 @ map (partition_prefix base_path) (take (Suc k) (date # dates))"
      using lk l1 by simp
    have b: "process_dates env base_path limit (take (Suc k) (date # dates)) st0 = Inr st"
      using pk by (simp only: take_Suc_Cons step)
    have c: "Suc k < length (date # dates) \<longrightarrow> limit_reached limit (file_count st)"
      using sk by simp
    have d: "\<exists>stj. process_dates env base_path limit (take j (date # dates)) st0 = Inr stj
                  \<and> \<not> limit_reached limit (file_count stj)"
      if "1 \<le> j \<and> j < Suc k" for j
    proof (cases j)
      case 0
      with that show ?thesis by simp
    next
      case (Suc j')
      show ?thesis
      proof (cases "j' = 0")
        case True
        with Suc one nl show ?thesis by auto
      next
        case False
        with that Suc have "1 \<le> j' \<and> j' < k" by simp
        with jk obtain stj where "process_dates env base_path limit (take j' dates) st1 = Inr stj"
          and "\<not> limit_reached limit (file_count stj)" by blast
        then show ?thesis
          unfolding Suc by (simp only: take_Suc_Cons step) blast
      qed
    qed
    from k a b c d have "1 \<le> Suc k \<and> Suc k \<le> length (date # dates)
        \<and> listed st = listed st0 @ map (partition_prefix base_path) (take (Suc k) (date # dates))
        \<and> process_dates env base_path limit (take (Suc k) (date # dates)) st0 = Inr st
        \<and> (Suc k < length (date # dates) \<longrightarrow> limit_reached limit (file_count st))
        \<and> (\<forall>j. 1 \<le> j \<and> j < Suc k \<longrightarrow>
              (\<exists>stj. process_dates env base_path limit (take j (date # dates)) st0 = Inr stj
                     \<and> \<not> limit_reached limit (file_count stj)))"
      by simp
    then show ?thesis by blast
  qed
qed

lemma process_objects_fails:
  assumes "limit = None \<or> limit = Some 0"
    and "key \<in> set keys" and "endswith key ''.csv.gz''" and "read_frame env key = Inl err"
  shows "\<exists>e. process_objects env limit keys st = Inl e"
  using assms(2)
proof (induction keys arbitrary: st)
  case Nil
  then show ?case by simp
next
  case (Cons k keys)
  show ?case
  proof (cases "k = key")
    case True
    with assms(3,4) show ?thesis by simp
  next
    case False
    with Cons.prems have later: "key \<in> set keys" by simp
    show ?thesis
    proof (cases "endswith k ''.csv.gz''")
      case False
      with Cons.IH [OF later] show ?thesis by simp
    next
      case True
      show ?thesis
      proof (cases "read_frame env k")
        case (Inl e)
        with True show ?thesis by simp
      next
        case (Inr df)
        have "\<not> limit_reached limit (file_count st + 1)" using assms(1) by (rule limit_unset)
        with True Inr Cons.IH [OF later] show ?thesis by (simp add: Let_def)
      qed
    qed
  qed
qed

lemma process_dates_fails:
  assumes "limit = None \<or> limit = Some 0"
    and "date \<in> set dates"
    and "list_objects_v2 env (partition_prefix base_path date) = Inr (Some keys)"
    and "key \<in> set keys" and "endswith key ''.csv.gz''" and "read_frame env key = Inl err"
  shows "\<exists>e. process_dates env base_path limit dates st = Inl e"
  using assms(2)
proof (induction dates arbitrary: st)
  case Nil
  then show ?case by simp
next
  case (Cons d dates)
  show ?case
  proof (cases "list_objects_v2 env (partition_prefix base_path d)")
    case (Inl e)
    then show ?thesis by simp
  next
    case (Inr response)
    define st0 where "st0 = st\<lparr>listed := listed st @ [partition_prefix base_path d]\<rparr>"
    show ?thesis
    proof (cases "process_objects env limit (case response of None \<Rightarrow> [] | Some keys \<Rightarrow> keys) st0")
      case (Inl e)
      with Inr show ?thesis by (simp add: st0_def)
    next
      case ok: (Inr st1)
      have "d \<noteq> date"
      proof
        assume "d = date"
        with Inr assms(3) have "response = Some keys" by simp
        with process_objects_fails [OF assms(1,4,5,6), of st0] ok show False by simp
      qed
      with Cons.prems have later: "date \<in> set dates" by simp
      have "\<not> limit_reached limit (file_count st1)" using assms(1) by (rule limit_unset)
      with Inr ok Cons.IH [OF later, of st1] show ?thesis by (simp add: st0_def)
    qed
  qed
qed

text \<open>No key that yields a date: the list of dates stays as it is.\<close>

lemma collect_dates_none:
  "\<forall>key\<in>set keys. partition_date key = Inr None \<Longrightarrow> collect_dates keys dates = Inr dates"
  by (induction keys arbitrary: dates) auto

section \<open>Claims about execute\_query\<close>

text \<open>
  C8. A statement whose trimmed form does not begin with \<^verbatim>\<open>select\<close> (in any case) is
  refused: \<open>execute_query\<close> returns the message "Query must start with SELECT" together
  with an empty table, whatever the table and the filter evaluator are. The statement
  \<^verbatim>\<open>DROP TABLE x\<close> is refused this way.
\<close>

theorem C8_not_a_select:
  assumes "\<not> startswith (lower (strip query)) ''select''"
  shows "execute_query pd_query df query = (DataFrame, Some MustStartWithSelect)"
  using assms by (simp add: execute_query_def)

theorem C8_not_a_select_witness:
  "\<not> startswith (lower (strip ''DROP TABLE x'')) ''select'' \<and>
   execute_query keep_all people ''DROP TABLE x'' = (DataFrame, Some MustStartWithSelect)"
proof -
  have h: "\<not> startswith (lower (strip ''DROP TABLE x'')) ''select''"
    by code_simp
  from h C8_not_a_select [OF h, of keep_all people] show ?thesis by simp
qed




text \<open>
  C5. For a statement that names its columns, \<open>execute_query\<close> first projects the table
  to the columns of the parsed list, in the order of the list: when every one of them is a
  column of the table (whose labels are distinct) the projection holds exactly these
  columns, each with its cells and all rows, and it is the result (or, with a filter, what
  the filter evaluator is given). When some listed column is no column of the table the
  call fails with the KeyError that names the missing columns, in the order of the list.
  \<^verbatim>\<open>SELECT z\<close> on a table without \<^verbatim>\<open>z\<close> fails with the KeyError naming \<^verbatim>\<open>z\<close>.
\<close>

theorem C5_projection:
  assumes "startswith (lower (strip query)) ''select''"
    and "requested_columns (strip query) = Some cs"
  shows "execute_query pd_query df query =
           (case getitem df cs of
              Inl e \<Rightarrow> (DataFrame, Some (ErrorExecutingQuery e))
            | Inr projected \<Rightarrow>
                (case where_part (strip query) of
                   None \<Rightarrow> (projected, None)
                 | Some w \<Rightarrow>
                     (case pd_query projected w of
                        Inl e \<Rightarrow> (DataFrame, Some (ErrorExecutingQuery e))
                      | Inr filtered \<Rightarrow> (filtered, None))))
       \<and> (set cs \<subseteq> set (columns df) \<and> distinct (columns df) \<longrightarrow>
            getitem df cs =
              Inr \<lparr>nrows = nrows df, cols = map (\<lambda>c. (c, the (map_of (cols df) c))) cs\<rparr>)
       \<and> (\<not> set cs \<subseteq> set (columns df) \<longrightarrow>
            filter (\<lambda>c. c \<notin> set (columns df)) cs \<noteq> [] \<and>
            execute_query pd_query df query =
              (DataFrame,
               Some (ErrorExecutingQuery (KeyError (filter (\<lambda>c. c \<notin> set (columns df)) cs)))))"
proof -
  have run: "execute_query pd_query df query =
           (case getitem df cs of
              Inl e \<Rightarrow> (DataFrame, Some (ErrorExecutingQuery e))
            | Inr projected \<Rightarrow>
                (case where_part (strip query) of
                   None \<Rightarrow> (projected, None)
                 | Some w \<Rightarrow>
                     (case pd_query projected w of
                        Inl e \<Rightarrow> (DataFrame, Some (ErrorExecutingQuery e))
                      | Inr filtered \<Rightarrow> (filtered, None))))"
    by (simp add: execute_query_pieces [OF assms(1)] assms(2))
  have present: "getitem df cs =
      Inr \<lparr>nrows = nrows df, cols = map (\<lambda>c. (c, the (map_of (cols df) c))) cs\<rparr>"
    if "set cs \<subseteq> set (columns df)" and "distinct (columns df)"
    using that by (rule getitem_present)
  have missing: "filter (\<lambda>c. c \<notin> set (columns df)) cs \<noteq> [] \<and>
      execute_query pd_query df query =
        (DataFrame,
         Some (ErrorExecutingQuery (KeyError (filter (\<lambda>c. c \<notin> set (columns df)) cs))))"
    if "\<not> set cs \<subseteq> set (columns df)"
    using getitem_missing [OF that] run by simp
  from run present missing show ?thesis by blast
qed

theorem C5_projection_witness:
  "startswith (lower (strip ''SELECT city, id'')) ''select''
   \<and> requested_columns (strip ''SELECT city, id'') = Some [''city'', ''id'']
   \<and> set [''city'', ''id''] \<subseteq> set (columns people) \<and> distinct (columns people)
   \<and> execute_query keep_all people ''SELECT city, id'' =
        (\<lparr>nrows = 2, cols = [(''city'', [None, Some 3]), (''id'', [Some 1, Some 2])]\<rparr>, None)
   \<and> startswith (lower (strip ''SELECT z'')) ''select''
   \<and> requested_columns (strip ''SELECT z'') = Some [''z'']
   \<and> \<not> set [''z''] \<subseteq> set (columns people)
   \<and> execute_query keep_all people ''SELECT z'' =
        (DataFrame, Some (ErrorExecutingQuery (KeyError [''z''])))"
proof -
  have s1: "startswith (lower (strip ''SELECT city, id'')) ''select''" by code_simp
  have c1: "requested_columns (strip ''SELECT city, id'') = Some [''city'', ''id'']"
    by code_simp
  have w1: "where_part (strip ''SELECT city, id'') = None" by code_simp
  have p1: "set [''city'', ''id''] \<subseteq> set (columns people)" "distinct (columns people)"
    by (simp_all add: columns_def people_def)
  have s2: "startswith (lower (strip ''SELECT z'')) ''select''" by code_simp
  have c2: "requested_columns (strip ''SELECT z'') = Some [''z'']" by code_simp
  have p2: "\<not> set [''z''] \<subseteq> set (columns people)"
    by (simp add: columns_def people_def)
  have e1: "execute_query keep_all people ''SELECT city, id'' =
        (\<lparr>nrows = 2, cols = [(''city'', [None, Some 3]), (''id'', [Some 1, Some 2])]\<rparr>, None)"
    using C5_projection [OF s1 c1, of keep_all people] p1 w1
    by (simp add: people_def)
  have e2: "execute_query keep_all people ''SELECT z'' =
        (DataFrame, Some (ErrorExecutingQuery (KeyError [''z''])))"
  proof -
    have f: "filter (\<lambda>c. c \<notin> set (columns people)) [''z''] = [''z'']"
      by (simp add: columns_def people_def)
    from C5_projection [OF s2 c2, of keep_all people] p2
    have "execute_query keep_all people ''SELECT z'' =
        (DataFrame, Some (ErrorExecutingQuery
           (KeyError (filter (\<lambda>c. c \<notin> set (columns people)) [''z'']))))"
      by blast
    then show ?thesis unfolding f .
  qed
  from s1 c1 p1 e1 s2 c2 p2 e2 show ?thesis by blast
qed

text \<open>
  C10 (as amended). \<open>execute_query\<close> lowers the whole trimmed statement before it cuts
  the column list and the filter out of it. So the column clause, every listed column and
  the filter string hold no upper-case letter: a column whose name has an upper-case
  letter is never in the parsed column list, never a column of the projection the list
  gives, and never occurs in the filter string. The filter string handed to the row-wise
  evaluator is the lowered text after the first \<^verbatim>\<open>where\<close> when that text holds no further
  \<^verbatim>\<open>where\<close>; when it does, the filter string ends before the second \<^verbatim>\<open>where\<close>.
\<close>

theorem C10_lowercased_amended:
  "(\<forall>c\<in>set (select_part (strip query)). \<not> is_upper c)
   \<and> (where_part (strip query) = Some w \<longrightarrow> (\<forall>c\<in>set w. \<not> is_upper c))
   \<and> (requested_columns (strip query) = Some cs \<and> (\<exists>c\<in>set name. is_upper c) \<longrightarrow>
         name \<notin> set cs \<and> (getitem df cs = Inr projected \<longrightarrow> name \<notin> set (columns projected)))
   \<and> (where_part (strip query) = Some w \<and> (\<exists>c\<in>set name. is_upper c) \<longrightarrow> \<not> contains name w)
   \<and> (lower (strip query) = pre @ ''where'' @ post
         \<and> (\<forall>i<length pre. \<not> startswith (drop i (lower (strip query))) ''where'') \<longrightarrow>
         (\<not> contains ''where'' post \<longrightarrow> where_part (strip query) = Some post)
         \<and> (post = mid @ ''where'' @ tail
              \<and> (\<forall>i<length mid. \<not> startswith (drop i post) ''where'')
            \<longrightarrow> where_part (strip query) = Some mid))
   \<and> (startswith (lower (strip query)) ''select'' \<longrightarrow>
         execute_query pd_query df query =
           (case (case requested_columns (strip query) of
                    None \<Rightarrow> Inr df
                  | Some cs \<Rightarrow> getitem df cs)
            of
              Inl e \<Rightarrow> (DataFrame, Some (ErrorExecutingQuery e))
            | Inr result \<Rightarrow>
                (case where_part (strip query) of
                   None \<Rightarrow> (result, None)
                 | Some w \<Rightarrow>
                     (case pd_query result w of
                        Inl e \<Rightarrow> (DataFrame, Some (ErrorExecutingQuery e))
                      | Inr filtered \<Rightarrow> (filtered, None)))))"
proof -
  have low: "\<And>s. set s \<subseteq> set (lower (strip query)) \<Longrightarrow> \<forall>c\<in>set s. \<not> is_upper c"
    using lower_not_upper by blast
  have a: "\<forall>c\<in>set (select_part (strip query)). \<not> is_upper c"
    by (rule low) (rule select_part_chars)
  have b: "\<forall>c\<in>set w. \<not> is_upper c" if "where_part (strip query) = Some w"
    by (rule low) (rule where_part_chars [OF that])
  have c: "name \<notin> set cs \<and> (getitem df cs = Inr projected \<longrightarrow> name \<notin> set (columns projected))"
    if "requested_columns (strip query) = Some cs" and up: "\<exists>c\<in>set name. is_upper c"
  proof -
    have "name \<notin> set cs"
    proof
      assume "name \<in> set cs"
      from low [OF requested_columns_chars [OF that(1) this]] up show False by blast
    qed
    moreover have "name \<notin> set (columns projected)" if "getitem df cs = Inr projected"
      using getitem_columns(1) [OF that] \<open>name \<notin> set cs\<close> by blast
    ultimately show ?thesis by blast
  qed
  have d: "\<not> contains name w"
    if "where_part (strip query) = Some w" and up: "\<exists>c\<in>set name. is_upper c"
  proof
    assume "contains name w"
    then have "set name \<subseteq> set w" by (rule contains_set)
    with b [OF that(1)] up show False by blast
  qed
  have e: "(\<not> contains ''where'' post \<longrightarrow> where_part (strip query) = Some post)
         \<and> (post = mid @ ''where'' @ tail
              \<and> (\<forall>i<length mid. \<not> startswith (drop i post) ''where'')
            \<longrightarrow> where_part (strip query) = Some mid)"
    if "lower (strip query) = pre @ ''where'' @ post"
      and "\<forall>i<length pre. \<not> startswith (drop i (lower (strip query))) ''where''"
    using where_part_first [OF that] by blast
  note f = execute_query_pieces [of query pd_query df]
  from a b c d e f show ?thesis by blast
qed

theorem C10_lowercased_amended_witness:
  "requested_columns (strip ''SELECT id WHERE Name > 5'') = Some [''id'']
   \<and> where_part (strip ''SELECT id WHERE Name > 5'') = Some '' name > 5''
   \<and> is_upper CHR ''N''
   \<and> ''Name'' \<notin> set [''id'']
   \<and> getitem people [''id''] = Inr \<lparr>nrows = 2, cols = [(''id'', [Some 1, Some 2])]\<rparr>
   \<and> ''Name'' \<notin> set (columns \<lparr>nrows = 2, cols = [(''id'', [Some (1::int), Some 2])]\<rparr>)
   \<and> \<not> contains ''Name'' '' name > 5''
   \<and> lower (strip ''SELECT id WHERE Name > 5'') = ''select id '' @ ''where'' @ '' name > 5''
   \<and> \<not> contains ''where'' '' name > 5''
   \<and> startswith (lower (strip ''SELECT id WHERE Name > 5'')) ''select''
   \<and> execute_query keep_all people ''SELECT id WHERE Name > 5'' =
        (\<lparr>nrows = 2, cols = [(''id'', [Some 1, Some 2])]\<rparr>, None)
   \<and> lower (strip ''SELECT id WHERE somewhere_id > 5'')
        = ''select id '' @ ''where'' @ '' somewhere_id > 5''
   \<and> '' somewhere_id > 5'' = '' some'' @ ''where'' @ ''_id > 5''
   \<and> where_part (strip ''SELECT id WHERE somewhere_id > 5'') = Some '' some''"
proof -
  let ?q = "''SELECT id WHERE Name > 5''" and ?q2 = "''SELECT id WHERE somewhere_id > 5''"
  have rc: "requested_columns (strip ?q) = Some [''id'']" by code_simp
  have wp: "where_part (strip ?q) = Some '' name > 5''" by code_simp
  have up: "\<exists>c\<in>set ''Name''. is_upper c" by code_simp
  have gi: "getitem people [''id''] = Inr \<lparr>nrows = 2, cols = [(''id'', [Some 1, Some 2])]\<rparr>"
    by code_simp
  have lo: "lower (strip ?q) = ''select id '' @ ''where'' @ '' name > 5''" by code_simp
  have fst: "\<forall>i<length ''select id ''. \<not> startswith (drop i (lower (strip ?q))) ''where''"
    by code_simp
  have nw: "\<not> contains ''where'' '' name > 5''" by code_simp
  have sel: "startswith (lower (strip ?q)) ''select''" by code_simp
  have lo2: "lower (strip ?q2) = ''select id '' @ ''where'' @ '' somewhere_id > 5''"
    by code_simp
  have fst2: "\<forall>i<length ''select id ''. \<not> startswith (drop i (lower (strip ?q2))) ''where''"
    by code_simp
  have mid: "'' somewhere_id > 5'' = '' some'' @ ''where'' @ ''_id > 5''" by simp
  have fstm: "\<forall>i<length '' some''. \<not> startswith (drop i '' somewhere_id > 5'') ''where''"
    by code_simp
  note t1 = C10_lowercased_amended [of ?q "'' name > 5''" "[''id'']" "''Name''" people
      "\<lparr>nrows = 2, cols = [(''id'', [Some 1, Some 2])]\<rparr>" "''select id ''" "'' name > 5''"
      "[]" "[]" keep_all]
  note t2 = C10_lowercased_amended [of ?q2 "'' some''" "[''id'']" "''Name''" people
      "\<lparr>nrows = 2, cols = [(''id'', [Some 1, Some 2])]\<rparr>" "''select id ''"
      "'' somewhere_id > 5''" "'' some''" "''_id > 5''" keep_all]
  have n1: "''Name'' \<notin> set [''id'']"
    and n2: "''Name'' \<notin> set (columns \<lparr>nrows = 2, cols = [(''id'', [Some (1::int), Some 2])]\<rparr>)"
    and n3: "\<not> contains ''Name'' '' name > 5''"
    using t1 rc wp up gi by blast+
  have ex: "execute_query keep_all people ?q =
        (\<lparr>nrows = 2, cols = [(''id'', [Some 1, Some 2])]\<rparr>, None)"
    using t1 sel rc wp gi by (simp add: keep_all_def)
  have w2: "where_part (strip ?q2) = Some '' some''"
    using t2 lo2 fst2 mid fstm by blast
  have iu: "is_upper CHR ''N''" by code_simp
  from rc wp iu n1 gi n2 n3 lo nw sel ex lo2 mid w2 show ?thesis by blast
qed

text \<open>
  The statement \<^verbatim>\<open>SELECT id WHERE somewhere_id > 5\<close> holds \<^verbatim>\<open>where\<close> twice: the filter
  string the evaluator is given is \<^verbatim>\<open>" some"\<close>, not the lowered remainder of the statement.
\<close>

theorem C10_filter_not_remainder_counterexample:
  "lower (strip ''SELECT id WHERE somewhere_id > 5'')
     = ''select id '' @ ''where'' @ '' somewhere_id > 5''
   \<and> where_part (strip ''SELECT id WHERE somewhere_id > 5'') = Some '' some''
   \<and> where_part (strip ''SELECT id WHERE somewhere_id > 5'') \<noteq> Some '' somewhere_id > 5''
   \<and> execute_query echo_filter people ''SELECT id WHERE somewhere_id > 5''
        = (DataFrame, Some (ErrorExecutingQuery (Raised '' some'')))"
  by code_simp

text \<open>
  C3 (as amended). Parsing works on the lowered, trimmed statement. When it holds the
  letters \<^verbatim>\<open>where\<close>, the column clause is the text before their first occurrence and the
  filter is the text after it, untrimmed, up to the second occurrence if there is one;
  a statement without \<^verbatim>\<open>where\<close> has no filter and is all column clause. The column
  clause with every occurrence of \<^verbatim>\<open>select\<close> removed, trimmed, is the wildcard when it
  is \<^verbatim>\<open>*\<close>, and otherwise is cut at the commas into the trimmed column names, in order.
  \<open>execute_query\<close> selects by this column list and then hands the filter string to the
  evaluator. \<^verbatim>\<open>select a, b where a > 5\<close> gives the columns a, b and the filter
  \<^verbatim>\<open>" a > 5"\<close>.
\<close>

theorem C3_parse_amended:
  "(\<not> contains ''where'' (lower (strip query)) \<longrightarrow>
       select_part (strip query) = lower (strip query) \<and> where_part (strip query) = None)
   \<and> (lower (strip query) = pre @ ''where'' @ post
         \<and> (\<forall>i<length pre. \<not> startswith (drop i (lower (strip query))) ''where'') \<longrightarrow>
         select_part (strip query) = pre
         \<and> (\<not> contains ''where'' post \<longrightarrow> where_part (strip query) = Some post)
         \<and> (post = mid @ ''where'' @ tail
              \<and> (\<forall>i<length mid. \<not> startswith (drop i post) ''where'')
            \<longrightarrow> where_part (strip query) = Some mid))
   \<and> columns_str (strip query) = strip (replace ''select'' [] (select_part (strip query)))
   \<and> (columns_str (strip query) = ''*'' \<longrightarrow> requested_columns (strip query) = None)
   \<and> (columns_str (strip query) = py_join '','' names \<and> columns_str (strip query) \<noteq> ''*''
         \<and> names \<noteq> [] \<and> (\<forall>n\<in>set names. CHR '','' \<notin> set n) \<longrightarrow>
         requested_columns (strip query) = Some (map strip names))
   \<and> (startswith (lower (strip query)) ''select'' \<longrightarrow>
         execute_query pd_query df query =
           (case (case requested_columns (strip query) of
                    None \<Rightarrow> Inr df
                  | Some cs \<Rightarrow> getitem df cs)
            of
              Inl e \<Rightarrow> (DataFrame, Some (ErrorExecutingQuery e))
            | Inr result \<Rightarrow>
                (case where_part (strip query) of
                   None \<Rightarrow> (result, None)
                 | Some w \<Rightarrow>
                     (case pd_query result w of
                        Inl e \<Rightarrow> (DataFrame, Some (ErrorExecutingQuery e))
                      | Inr filtered \<Rightarrow> (filtered, None)))))"
proof -
  have a: "select_part (strip query) = lower (strip query) \<and> where_part (strip query) = None"
    if "\<not> contains ''where'' (lower (strip query))"
    using pieces_no_where [OF that] by simp
  have b: "select_part (strip query) = pre
         \<and> (\<not> contains ''where'' post \<longrightarrow> where_part (strip query) = Some post)
         \<and> (post = mid @ ''where'' @ tail
              \<and> (\<forall>i<length mid. \<not> startswith (drop i post) ''where'')
            \<longrightarrow> where_part (strip query) = Some mid)"
    if "lower (strip query) = pre @ ''where'' @ post"
      and "\<forall>i<length pre. \<not> startswith (drop i (lower (strip query))) ''where''"
    using pieces_first_where(1) [OF that] where_part_first [OF that] by blast
  have c: "columns_str (strip query) = strip (replace ''select'' [] (select_part (strip query)))"
    by (simp add: columns_str_def)
  have d: "requested_columns (strip query) = None" if "columns_str (strip query) = ''*''"
    using that by (simp add: requested_columns_def)
  have e: "requested_columns (strip query) = Some (map strip names)"
    if "columns_str (strip query) = py_join '','' names" and "columns_str (strip query) \<noteq> ''*''"
      and "names \<noteq> []" and "\<forall>n\<in>set names. CHR '','' \<notin> set n"
    using that by (rule requested_columns_join)
  note f = execute_query_pieces [of query pd_query df]
  from a b c d e f show ?thesis by blast
qed

theorem C3_parse_amended_witness:
  "lower (strip ''select a, b where a > 5'') = ''select a, b '' @ ''where'' @ '' a > 5''
   \<and> \<not> contains ''where'' '' a > 5''
   \<and> select_part (strip ''select a, b where a > 5'') = ''select a, b ''
   \<and> where_part (strip ''select a, b where a > 5'') = Some '' a > 5''
   \<and> columns_str (strip ''select a, b where a > 5'') = py_join '','' [''a'', '' b'']
   \<and> requested_columns (strip ''select a, b where a > 5'') = Some [''a'', ''b'']
   \<and> \<not> contains ''where'' (lower (strip ''Select  * ''))
   \<and> columns_str (strip ''Select  * '') = ''*''
   \<and> requested_columns (strip ''Select  * '') = None
   \<and> where_part (strip ''Select  * '') = None
   \<and> startswith (lower (strip ''Select  * '')) ''select''
   \<and> execute_query keep_all people ''Select  * '' = (people, None)
   \<and> lower (strip ''select id where id > 1 or nowhere > 2'')
        = ''select id '' @ ''where'' @ '' id > 1 or nowhere > 2''
   \<and> '' id > 1 or nowhere > 2'' = '' id > 1 or no'' @ ''where'' @ '' > 2''
   \<and> where_part (strip ''select id where id > 1 or nowhere > 2'') = Some '' id > 1 or no''"
proof -
  let ?q = "''select a, b where a > 5''" and ?q2 = "''Select  * ''"
    and ?q3 = "''select id where id > 1 or nowhere > 2''"
  have lo: "lower (strip ?q) = ''select a, b '' @ ''where'' @ '' a > 5''" by code_simp
  have fst: "\<forall>i<length ''select a, b ''. \<not> startswith (drop i (lower (strip ?q))) ''where''"
    by code_simp
  have nw: "\<not> contains ''where'' '' a > 5''" by code_simp
  have cs: "columns_str (strip ?q) = py_join '','' [''a'', '' b'']" by code_simp
  have ns: "columns_str (strip ?q) \<noteq> ''*''" by code_simp
  have nm: "[''a'', '' b''] \<noteq> []" "\<forall>n\<in>set [''a'', '' b'']. CHR '','' \<notin> set n" by simp_all
  have st: "map strip [''a'', '' b''] = [''a'', ''b'']" by code_simp
  note t1 = C3_parse_amended [of ?q "''select a, b ''" "'' a > 5''" "[]" "[]"
      "[''a'', '' b'']" keep_all people]
  have sp: "select_part (strip ?q) = ''select a, b ''"
    and wp: "where_part (strip ?q) = Some '' a > 5''"
    using t1 lo fst nw by blast+
  have rc: "requested_columns (strip ?q) = Some [''a'', ''b'']"
    using t1 cs ns nm st by metis
  have nw2: "\<not> contains ''where'' (lower (strip ?q2))" by code_simp
  have cs2: "columns_str (strip ?q2) = ''*''" by code_simp
  have sel2: "startswith (lower (strip ?q2)) ''select''" by code_simp
  note t2 = C3_parse_amended [of ?q2 "[]" "[]" "[]" "[]" "[]" keep_all people]
  have rc2: "requested_columns (strip ?q2) = None"
    and wp2: "where_part (strip ?q2) = None"
    using t2 nw2 cs2 by blast+
  have ex2: "execute_query keep_all people ?q2 = (people, None)"
    using t2 sel2 rc2 wp2 by simp
  have lo3: "lower (strip ?q3) = ''select id '' @ ''where'' @ '' id > 1 or nowhere > 2''"
    by code_simp
  have fst3: "\<forall>i<length ''select id ''. \<not> startswith (drop i (lower (strip ?q3))) ''where''"
    by code_simp
  have mid3: "'' id > 1 or nowhere > 2'' = '' id > 1 or no'' @ ''where'' @ '' > 2''" by simp
  have fstm3: "\<forall>i<length '' id > 1 or no''.
      \<not> startswith (drop i '' id > 1 or nowhere > 2'') ''where''"
    by code_simp
  note t3 = C3_parse_amended [of ?q3 "''select id ''" "'' id > 1 or nowhere > 2''"
      "'' id > 1 or no''" "'' > 2''" "[]" keep_all people]
  have wp3: "where_part (strip ?q3) = Some '' id > 1 or no''"
    using t3 lo3 fst3 mid3 fstm3 by blast
  from lo nw sp wp cs rc nw2 cs2 rc2 wp2 sel2 ex2 lo3 mid3 wp3 show ?thesis by blast
qed

text \<open>
  Where the parser departs from the parsing rules of the specification: a column name that holds the letters
  \<^verbatim>\<open>select\<close> loses them, a second \<^verbatim>\<open>where\<close> ends the filter, a column name is lowered,
  and the filter of \<^verbatim>\<open>select a, b where a > 5\<close> keeps its leading blank.
\<close>

theorem C3_parse_counterexample:
  "requested_columns (strip ''select selected_at, id'') = Some [''ed_at'', ''id'']
   \<and> execute_query keep_all people ''select selected_at, id''
        = (DataFrame, Some (ErrorExecutingQuery (KeyError [''ed_at''])))
   \<and> where_part (strip ''select id where id > 1 or nowhere > 2'') = Some '' id > 1 or no''
   \<and> execute_query echo_filter people ''select id where id > 1 or nowhere > 2''
        = (DataFrame, Some (ErrorExecutingQuery (Raised '' id > 1 or no'')))
   \<and> requested_columns (strip ''SELECT Name'') = Some [''name'']
   \<and> execute_query keep_all people ''SELECT Name''
        = (DataFrame, Some (ErrorExecutingQuery (KeyError [''name''])))
   \<and> where_part (strip ''select a, b where a > 5'') = Some '' a > 5''
   \<and> where_part (strip ''select a, b where a > 5'') \<noteq> Some ''a > 5''"
  by code_simp

section \<open>Claims about the schema text and the concatenation\<close>

text \<open>
  C4. The specification asks for the first non-null value of a column as its example value. Line
  150 tests whether the column is null throughout and, when it is not, takes the value of
  the first row, null or not. On the table with the one column \<^verbatim>\<open>a\<close> and the rows NaN, 5
  the example value is the NaN of the first row, not 5: the schema text reads
  \<^verbatim>\<open>- a (float64): Example value: nan\<close>. A column that is null throughout gets the
  text \<^verbatim>\<open>NULL\<close>, a column whose first row is not null gets that row's value, and an
  empty table (no rows, or no columns) gets the text "No data available to generate schema."
\<close>

theorem C4_example_value_is_first_row:
  "schema_sample [None, Some (5::int)] = Value None
   \<and> find (\<lambda>v. v \<noteq> None) [None, Some (5::int)] = Some (Some 5)
   \<and> get_schema_from_data example_dtype example_cell \<lparr>nrows = 2, cols = [(''a'', [None, Some 5])]\<rparr>
       = Inr (py_join [CHR 0x0A] [''Table Schema:'', ''- a (float64): Example value: nan''])
   \<and> get_schema_from_data example_dtype example_cell \<lparr>nrows = 2, cols = [(''a'', [None, None])]\<rparr>
       = Inr (py_join [CHR 0x0A] [''Table Schema:'', ''- a (float64): Example value: NULL''])
   \<and> get_schema_from_data example_dtype example_cell \<lparr>nrows = 2, cols = [(''a'', [Some 7, Some 8])]\<rparr>
       = Inr (py_join [CHR 0x0A] [''Table Schema:'', ''- a (int64): Example value: 7''])
   \<and> get_schema_from_data example_dtype example_cell DataFrame
       = Inr ''No data available to generate schema.''
   \<and> get_schema_from_data example_dtype example_cell \<lparr>nrows = 0, cols = [(''a'', [])]\<rparr>
       = Inr ''No data available to generate schema.''"
  by code_simp

text \<open>
  C6. Concatenating a frame with the columns A, B and a frame with the columns B, C
  (three different labels) gives the columns A, B, C: the rows of the first frame come
  first and hold a missing value in C, the rows of the second follow and hold a missing
  value in A, and B holds the cells of both. In general the columns of a concatenation
  are the union of the frames' columns and its rows are all their rows.
\<close>

theorem C6_schema_union:
  "(A \<noteq> B \<and> B \<noteq> C \<and> A \<noteq> C \<longrightarrow>
      combine [\<lparr>nrows = n1, cols = [(A, as), (B, bs)]\<rparr>,
               \<lparr>nrows = n2, cols = [(B, bs'), (C, cs)]\<rparr>]
        = Inr \<lparr>nrows = n1 + n2,
               cols = [(A, as @ replicate n2 None),
                       (B, bs @ bs'),
                       (C, replicate n1 None @ cs)]\<rparr>)
   \<and> (fs \<noteq> [] \<longrightarrow>
        (\<exists>r. combine fs = Inr r
           \<and> set (columns r) = (\<Union>f\<in>set fs. set (columns f))
           \<and> nrows r = sum_list (map nrows fs)))"
proof -
  have two: "combine [\<lparr>nrows = n1, cols = [(A, as), (B, bs)]\<rparr>,
                  \<lparr>nrows = n2, cols = [(B, bs'), (C, cs)]\<rparr>]
           = Inr \<lparr>nrows = n1 + n2,
                  cols = [(A, as @ replicate n2 None),
                          (B, bs @ bs'),
                          (C, replicate n1 None @ cs)]\<rparr>"
    if "A \<noteq> B" and "B \<noteq> C" and "A \<noteq> C"
    using that
    by (simp add: combine_def pd_concat_def first_seen_def columns_def column_or_missing_def)
  have many: "\<exists>r. combine fs = Inr r
           \<and> set (columns r) = (\<Union>f\<in>set fs. set (columns f))
           \<and> nrows r = sum_list (map nrows fs)" if "fs \<noteq> []"
    using that
    by (simp add: combine_def pd_concat_def first_seen_def columns_def comp_def image_image)
  from two many show ?thesis by blast
qed

theorem C6_schema_union_witness:
  "''A'' \<noteq> ''B'' \<and> ''B'' \<noteq> ''C'' \<and> ''A'' \<noteq> ''C''
   \<and> combine [\<lparr>nrows = 2, cols = [(''A'', [Some (1::int), Some 2]), (''B'', [Some 3, Some 4])]\<rparr>,
               \<lparr>nrows = 1, cols = [(''B'', [Some 5]), (''C'', [Some 6])]\<rparr>]
        = Inr \<lparr>nrows = 3,
               cols = [(''A'', [Some 1, Some 2, None]),
                       (''B'', [Some 3, Some 4, Some 5]),
                       (''C'', [None, None, Some 6])]\<rparr>
   \<and> get_data_for_date_range example_env ''csv-data/'' mar6 mar6 None
        = \<lparr>nrows = 3,
           cols = [(''A'', [Some 1, Some 2, None]),
                   (''B'', [Some 3, Some 4, Some 5]),
                   (''C'', [None, None, Some 6])]\<rparr>
   \<and> [frame_ab, frame_bc] \<noteq> []
   \<and> (\<exists>r. combine [frame_ab, frame_bc] = Inr r
          \<and> set (columns r) = set (columns frame_ab) \<union> set (columns frame_bc)
          \<and> nrows r = nrows frame_ab + nrows frame_bc)"
proof -
  have ne: "''A'' \<noteq> ''B'' \<and> ''B'' \<noteq> ''C'' \<and> ''A'' \<noteq> ''C''" by simp
  note t = C6_schema_union [of "''A''" "''B''" "''C''" 2 "[Some (1::int), Some 2]" "[Some 3, Some 4]"
      1 "[Some 5]" "[Some 6]" "[frame_ab, frame_bc]"]
  have two: "combine [\<lparr>nrows = 2, cols = [(''A'', [Some (1::int), Some 2]), (''B'', [Some 3, Some 4])]\<rparr>,
               \<lparr>nrows = 1, cols = [(''B'', [Some 5]), (''C'', [Some 6])]\<rparr>]
        = Inr \<lparr>nrows = 3,
               cols = [(''A'', [Some 1, Some 2, None]),
                       (''B'', [Some 3, Some 4, Some 5]),
                       (''C'', [None, None, Some 6])]\<rparr>"
    using t ne by (simp add: numeral_eq_Suc)
  have load: "get_data_for_date_range example_env ''csv-data/'' mar6 mar6 None
        = \<lparr>nrows = 3,
           cols = [(''A'', [Some 1, Some 2, None]),
                   (''B'', [Some 3, Some 4, Some 5]),
                   (''C'', [None, None, Some 6])]\<rparr>"
    by code_simp
  have many: "\<exists>r. combine [frame_ab, frame_bc] = Inr r
          \<and> set (columns r) = set (columns frame_ab) \<union> set (columns frame_bc)
          \<and> nrows r = nrows frame_ab + nrows frame_bc"
    using t by simp
  from ne two load many show ?thesis by blast
qed

section \<open>Claims about get\_data\_for\_date\_range\<close>

text \<open>
  C7 (as amended). For start \<open>\<le>\<close> end, with the start a date of the calendar and the last
  date to enumerate before 9999-12-31, the loop of lines 78-82 enumerates exactly
  \<^verbatim>\<open>(end - start).days + 1\<close> dates: the start and the days after it, one day apart, in
  ascending order. When the load does not fail, the prefixes that were listed are the
  partition prefixes of the first \<open>k\<close> of these dates in that order, one call for each,
  where \<open>k\<close> is at least 1 and is the first date after whose files the file limit is
  reached (the limit is reached after date \<open>k\<close> when \<open>k\<close> is not the last date, and is not
  reached after any earlier date); without a limit they are the prefixes of all the dates.
\<close>

theorem C7_date_enumeration_amended:
  assumes "dt_le start_date end_date"
    and "1 \<le> day_ordinal start_date"
    and "day_ordinal start_date + timedelta_days end_date start_date < MAXORDINAL"
  shows "date_list start_date end_date
           = Inr (consecutive_days start_date (nat (timedelta_days end_date start_date) + 1))
       \<and> length (consecutive_days start_date (nat (timedelta_days end_date start_date) + 1))
           = nat (timedelta_days end_date start_date) + 1
       \<and> (load_frames env base_path start_date end_date limit = Inr st \<longrightarrow>
            (\<exists>k. 1 \<le> k \<and> k \<le> nat (timedelta_days end_date start_date) + 1
               \<and> listed st = map (partition_prefix base_path) (consecutive_days start_date k)
               \<and> process_dates env base_path limit (consecutive_days start_date k)
                     \<lparr>all_data = [], file_count = 0, listed = []\<rparr> = Inr st
               \<and> (k < nat (timedelta_days end_date start_date) + 1
                     \<longrightarrow> limit_reached limit (file_count st))
               \<and> (\<forall>j. 1 \<le> j \<and> j < k \<longrightarrow>
                     (\<exists>stj. process_dates env base_path limit (consecutive_days start_date j)
                              \<lparr>all_data = [], file_count = 0, listed = []\<rparr> = Inr stj
                            \<and> \<not> limit_reached limit (file_count stj))))
            \<and> (limit = None \<or> limit = Some 0 \<longrightarrow>
                 listed st = map (partition_prefix base_path)
                   (consecutive_days start_date (nat (timedelta_days end_date start_date) + 1))))"
proof -
  define n where "n = nat (timedelta_days end_date start_date) + 1"
  let ?init = "\<lparr>all_data = [], file_count = 0, listed = []\<rparr> :: 'a load_state"
  from assms(1) have td: "0 \<le> timedelta_days end_date start_date"
    by (simp add: dt_le_timedelta)
  have dl: "date_list start_date end_date = Inr (consecutive_days start_date n)"
    unfolding date_list_def consecutive_days_def
    using date_list_loop_run [of end_date start_date n "[]"] td assms(2,3)
    by (simp add: n_def)
  have len: "length (consecutive_days start_date n) = n"
    by (simp add: consecutive_days_def)
  have ne: "consecutive_days start_date n \<noteq> []"
    using len by (auto simp: n_def)
  have tk: "take k (consecutive_days start_date n) = consecutive_days start_date k" if "k \<le> n" for k
    using that by (simp add: consecutive_days_def take_map)
  have tr: "(\<exists>k. 1 \<le> k \<and> k \<le> n
               \<and> listed st = map (partition_prefix base_path) (consecutive_days start_date k)
               \<and> process_dates env base_path limit (consecutive_days start_date k) ?init = Inr st
               \<and> (k < n \<longrightarrow> limit_reached limit (file_count st))
               \<and> (\<forall>j. 1 \<le> j \<and> j < k \<longrightarrow>
                     (\<exists>stj. process_dates env base_path limit (consecutive_days start_date j)
                              ?init = Inr stj
                            \<and> \<not> limit_reached limit (file_count stj))))
            \<and> (limit = None \<or> limit = Some 0 \<longrightarrow>
                 listed st = map (partition_prefix base_path) (consecutive_days start_date n))"
    if run: "load_frames env base_path start_date end_date limit = Inr st"
  proof -
    from run dl have pd: "process_dates env base_path limit (consecutive_days start_date n)
        ?init = Inr st"
      by (simp add: load_frames_def)
    from process_dates_stop [OF pd ne] obtain k where k: "1 \<le> k" "k \<le> n"
      and lk: "listed st = listed ?init
                 @ map (partition_prefix base_path) (take k (consecutive_days start_date n))"
      and pk: "process_dates env base_path limit (take k (consecutive_days start_date n)) ?init
                 = Inr st"
      and sk: "k < n \<longrightarrow> limit_reached limit (file_count st)"
      and jk: "\<forall>j. 1 \<le> j \<and> j < k \<longrightarrow>
                 (\<exists>stj. process_dates env base_path limit
                          (take j (consecutive_days start_date n)) ?init = Inr stj
                        \<and> \<not> limit_reached limit (file_count stj))"
      unfolding len by blast
    have jk': "\<exists>stj. process_dates env base_path limit (consecutive_days start_date j)
                              ?init = Inr stj
                            \<and> \<not> limit_reached limit (file_count stj)"
      if "1 \<le> j \<and> j < k" for j
    proof -
      from that k(2) have "j \<le> n" by simp
      from jk that tk [OF this] show ?thesis by auto
    qed
    have first: "\<exists>k. 1 \<le> k \<and> k \<le> n
               \<and> listed st = map (partition_prefix base_path) (consecutive_days start_date k)
               \<and> process_dates env base_path limit (consecutive_days start_date k) ?init = Inr st
               \<and> (k < n \<longrightarrow> limit_reached limit (file_count st))
               \<and> (\<forall>j. 1 \<le> j \<and> j < k \<longrightarrow>
                     (\<exists>stj. process_dates env base_path limit (consecutive_days start_date j)
                              ?init = Inr stj
                            \<and> \<not> limit_reached limit (file_count stj)))"
      using k lk pk sk jk' tk [OF k(2)] by (intro exI [of _ k]) simp
    have "listed st = map (partition_prefix base_path) (consecutive_days start_date n)"
      if "limit = None \<or> limit = Some 0"
      using process_dates_listed_all [OF that pd] by simp
    with first show ?thesis by blast
  qed
  from dl len tr show ?thesis unfolding n_def by blast
qed

theorem C7_date_enumeration_amended_witness:
  "dt_le mar6 mar7 \<and> 1 \<le> day_ordinal mar6
   \<and> day_ordinal mar6 + timedelta_days mar7 mar6 < MAXORDINAL
   \<and> nat (timedelta_days mar7 mar6) + 1 = 2
   \<and> date_list mar6 mar7 = Inr [mar6, mar7]
   \<and> load_frames example_env ''csv-data/'' mar6 mar7 None
        = Inr \<lparr>all_data = [frame_ab, frame_bc, frame_ab], file_count = 3,
               listed = [''csv-data/year=2024/month=03/day=06/'',
                         ''csv-data/year=2024/month=03/day=07/'']\<rparr>
   \<and> map (partition_prefix ''csv-data/'') [mar6, mar7]
        = [''csv-data/year=2024/month=03/day=06/'', ''csv-data/year=2024/month=03/day=07/'']
   \<and> process_dates example_env ''csv-data/'' None (consecutive_days mar6 1)
        \<lparr>all_data = [], file_count = 0, listed = []\<rparr>
        = Inr \<lparr>all_data = [frame_ab, frame_bc], file_count = 2,
               listed = [''csv-data/year=2024/month=03/day=06/'']\<rparr>
   \<and> \<not> limit_reached None 2
   \<and> load_frames example_env ''csv-data/'' mar6 mar7 (Some 1)
        = Inr \<lparr>all_data = [frame_ab], file_count = 1,
               listed = [''csv-data/year=2024/month=03/day=06/'']\<rparr>
   \<and> map (partition_prefix ''csv-data/'') (consecutive_days mar6 1)
        = [''csv-data/year=2024/month=03/day=06/'']
   \<and> limit_reached (Some 1) 1"
proof -
  have h1: "dt_le mar6 mar7" by code_simp
  have h2: "1 \<le> day_ordinal mar6" by code_simp
  have h3: "day_ordinal mar6 + timedelta_days mar7 mar6 < MAXORDINAL" by code_simp
  have n: "nat (timedelta_days mar7 mar6) + 1 = 2" by code_simp
  have cd: "consecutive_days mar6 2 = [mar6, mar7]" by code_simp
  have run: "load_frames example_env ''csv-data/'' mar6 mar7 None
        = Inr \<lparr>all_data = [frame_ab, frame_bc, frame_ab], file_count = 3,
               listed = [''csv-data/year=2024/month=03/day=06/'',
                         ''csv-data/year=2024/month=03/day=07/'']\<rparr>"
    by code_simp
  note t = C7_date_enumeration_amended [OF h1 h2 h3, of example_env "''csv-data/''" None
      "\<lparr>all_data = [frame_ab, frame_bc, frame_ab], file_count = 3,
               listed = [''csv-data/year=2024/month=03/day=06/'',
                         ''csv-data/year=2024/month=03/day=07/'']\<rparr>"]
  have dl: "date_list mar6 mar7 = Inr [mar6, mar7]"
    using t unfolding n cd by blast
  have pf: "map (partition_prefix ''csv-data/'') [mar6, mar7]
        = [''csv-data/year=2024/month=03/day=06/'', ''csv-data/year=2024/month=03/day=07/'']"
    using t run unfolding n cd by simp
  have one: "process_dates example_env ''csv-data/'' None (consecutive_days mar6 1)
        \<lparr>all_data = [], file_count = 0, listed = []\<rparr>
        = Inr \<lparr>all_data = [frame_ab, frame_bc], file_count = 2,
               listed = [''csv-data/year=2024/month=03/day=06/'']\<rparr>"
    by code_simp
  have nl: "\<not> limit_reached None 2" by code_simp
  have run1: "load_frames example_env ''csv-data/'' mar6 mar7 (Some 1)
        = Inr \<lparr>all_data = [frame_ab], file_count = 1,
               listed = [''csv-data/year=2024/month=03/day=06/'']\<rparr>"
    by code_simp
  have pf1: "map (partition_prefix ''csv-data/'') (consecutive_days mar6 1)
        = [''csv-data/year=2024/month=03/day=06/'']"
    by code_simp
  have lr: "limit_reached (Some 1) 1" by code_simp
  from h1 h2 h3 n dl run pf one nl run1 pf1 lr show ?thesis by blast
qed

text \<open>
  The range from 9999-12-31 to 9999-12-31 has one date, and its partition holds a file
  that can be read; the loop raises OverflowError when it steps past the date, and the
  result is the empty table. With a file limit of 1 the range 2024-03-06 to 2024-03-07
  has two dates, and only the first partition is listed.
\<close>

theorem C7_date_enumeration_counterexample:
  "dt_le last_day last_day
   \<and> timedelta_days last_day last_day + 1 = 1
   \<and> date_list last_day last_day = Inl OverflowError
   \<and> load_frames example_env ''csv-data/'' last_day last_day None = Inl OverflowError
   \<and> read_frame example_env ''csv-data/year=9999/month=12/day=31/z.csv.gz'' = Inr frame_ab
   \<and> get_data_for_date_range example_env ''csv-data/'' last_day last_day None = DataFrame
   \<and> date_list mar6 mar7 = Inr [mar6, mar7]
   \<and> load_frames example_env ''csv-data/'' mar6 mar7 (Some 1)
        = Inr \<lparr>all_data = [frame_ab], file_count = 1,
               listed = [''csv-data/year=2024/month=03/day=06/'']\<rparr>"
  by code_simp

text \<open>
  C1 (as amended). The whole load is one \<^verbatim>\<open>try\<close> block. When no file limit is given and
  some file with the suffix \<^verbatim>\<open>.csv.gz\<close> in the partition of some date of the range cannot
  be fetched, decompressed or parsed, the load is abandoned and the result is the empty
  table: the frames read from the other files are not returned.
\<close>

theorem C1_file_failure_aborts_load:
  assumes "limit = None \<or> limit = Some 0"
    and "date_list start_date end_date = Inr dates"
    and "date \<in> set dates"
    and "list_objects_v2 env (partition_prefix base_path date) = Inr (Some keys)"
    and "key \<in> set keys"
    and "endswith key ''.csv.gz''"
    and "read_frame env key = Inl err"
  shows "get_data_for_date_range env base_path start_date end_date limit = DataFrame"
proof -
  from process_dates_fails [OF assms(1,3,4,5,6,7)]
  obtain e where "process_dates env base_path limit dates
      \<lparr>all_data = [], file_count = 0, listed = []\<rparr> = Inl e"
    by blast
  then show ?thesis
    using assms(2) by (simp add: get_data_for_date_range_def load_frames_def)
qed

theorem C1_file_failure_aborts_load_witness:
  "date_list mar5 mar6 = Inr [mar5, mar6]
   \<and> mar5 \<in> set [mar5, mar6]
   \<and> list_objects_v2 example_env (partition_prefix ''csv-data/'' mar5)
       = Inr (Some [''csv-data/year=2024/month=03/day=05/a.csv.gz'',
                    ''csv-data/year=2024/month=03/day=05/notes.txt'',
                    ''csv-data/year=2024/month=03/day=05/b.csv.gz''])
   \<and> endswith ''csv-data/year=2024/month=03/day=05/b.csv.gz'' ''.csv.gz''
   \<and> read_frame example_env ''csv-data/year=2024/month=03/day=05/b.csv.gz''
       = Inl (Raised ''BadGzipFile'')
   \<and> get_data_for_date_range example_env ''csv-data/'' mar5 mar6 None = DataFrame"
proof -
  let ?keys = "[''csv-data/year=2024/month=03/day=05/a.csv.gz'',
                ''csv-data/year=2024/month=03/day=05/notes.txt'',
                ''csv-data/year=2024/month=03/day=05/b.csv.gz'']"
  have h1: "(None :: int option) = None \<or> (None :: int option) = Some 0" by simp
  have h2: "date_list mar5 mar6 = Inr [mar5, mar6]" by code_simp
  have h3: "mar5 \<in> set [mar5, mar6]" by simp
  have h4: "list_objects_v2 example_env (partition_prefix ''csv-data/'' mar5) = Inr (Some ?keys)"
    by code_simp
  have h5: "''csv-data/year=2024/month=03/day=05/b.csv.gz'' \<in> set ?keys" by simp
  have h6: "endswith ''csv-data/year=2024/month=03/day=05/b.csv.gz'' ''.csv.gz''" by code_simp
  have h7: "read_frame example_env ''csv-data/year=2024/month=03/day=05/b.csv.gz''
       = Inl (Raised ''BadGzipFile'')"
    by code_simp
  from C1_file_failure_aborts_load [OF h1 h2 h3 h4 h5 h6 h7] h2 h3 h4 h6 h7
  show ?thesis by blast
qed

text \<open>
  In the example bucket three of the four files of 2024-03-05 and 2024-03-06 can be read
  and would concatenate to five rows; \<^verbatim>\<open>b.csv.gz\<close> cannot be decompressed, and the load
  of the two days returns the empty table.
\<close>

theorem C1_partial_success_counterexample:
  "read_frame example_env ''csv-data/year=2024/month=03/day=05/a.csv.gz'' = Inr frame_ab
   \<and> read_frame example_env ''csv-data/year=2024/month=03/day=05/b.csv.gz''
       = Inl (Raised ''BadGzipFile'')
   \<and> read_frame example_env ''csv-data/year=2024/month=03/day=06/c.csv.gz'' = Inr frame_ab
   \<and> read_frame example_env ''csv-data/year=2024/month=03/day=06/d.csv.gz'' = Inr frame_bc
   \<and> combine [frame_ab, frame_ab, frame_bc]
       = Inr \<lparr>nrows = 5,
              cols = [(''A'', [Some 1, Some 2, Some 1, Some 2, None]),
                      (''B'', [Some 3, Some 4, Some 3, Some 4, Some 5]),
                      (''C'', [None, None, None, None, Some 6])]\<rparr>
   \<and> get_data_for_date_range example_env ''csv-data/'' mar5 mar6 None = DataFrame
   \<and> df_empty (get_data_for_date_range example_env ''csv-data/'' mar5 mar6 None)"
  by code_simp

section \<open>Claims about get\_available\_date\_range\<close>

text \<open>
  C2 (as amended). When the listing raises, \<open>get_available_date_range\<close> prints the
  exception and returns the pair \<^verbatim>\<open>(None, None)\<close>, which is also what it returns when the
  response has no \<^verbatim>\<open>'Contents'\<close> and when no key yields a date: the caller cannot tell a
  storage failure from "no data".
\<close>

theorem C2_failure_looks_like_no_data:
  "(list_objects_v2 env base_path = Inl e \<longrightarrow>
      get_available_date_range env base_path = (None, None))
   \<and> (list_objects_v2 env' base_path' = Inr None \<longrightarrow>
        get_available_date_range env' base_path' = (None, None))
   \<and> (list_objects_v2 env'' base_path'' = Inr (Some keys)
        \<and> (\<forall>key\<in>set keys. partition_date key = Inr None) \<longrightarrow>
        get_available_date_range env'' base_path'' = (None, None))"
proof -
  have a: "get_available_date_range env base_path = (None, None)"
    if "list_objects_v2 env base_path = Inl e"
    using that by (simp add: get_available_date_range_def)
  have b: "get_available_date_range env' base_path' = (None, None)"
    if "list_objects_v2 env' base_path' = Inr None"
    using that by (simp add: get_available_date_range_def)
  have c: "get_available_date_range env'' base_path'' = (None, None)"
    if "list_objects_v2 env'' base_path'' = Inr (Some keys)"
      and "\<forall>key\<in>set keys. partition_date key = Inr None"
    using that(1) collect_dates_none [OF that(2), of "[]"]
    by (simp add: get_available_date_range_def)
  from a b c show ?thesis by blast
qed

theorem C2_failure_looks_like_no_data_witness:
  "list_objects_v2 failing_env ''csv-data/'' = Inl (Raised ''EndpointConnectionError'')
   \<and> get_available_date_range failing_env ''csv-data/'' = (None, None)
   \<and> list_objects_v2 empty_env ''csv-data/'' = Inr None
   \<and> get_available_date_range empty_env ''csv-data/'' = (None, None)
   \<and> list_objects_v2 junk_env ''csv-data/''
       = Inr (Some [''csv-data/readme.txt'',
                    ''csv-data/year=x/month=1/day=2/f.csv.gz'',
                    ''csv-data/year=2024/month=02/day=30/f.csv.gz''])
   \<and> partition_date ''csv-data/readme.txt'' = Inr None
   \<and> partition_date ''csv-data/year=x/month=1/day=2/f.csv.gz'' = Inr None
   \<and> partition_date ''csv-data/year=2024/month=02/day=30/f.csv.gz'' = Inr None
   \<and> get_available_date_range junk_env ''csv-data/'' = (None, None)"
proof -
  let ?keys = "[''csv-data/readme.txt'',
                ''csv-data/year=x/month=1/day=2/f.csv.gz'',
                ''csv-data/year=2024/month=02/day=30/f.csv.gz'']"
  have f: "list_objects_v2 failing_env ''csv-data/'' = Inl (Raised ''EndpointConnectionError'')"
    by code_simp
  have e: "list_objects_v2 empty_env ''csv-data/'' = Inr None" by code_simp
  have j: "list_objects_v2 junk_env ''csv-data/'' = Inr (Some ?keys)" by code_simp
  have p1: "partition_date ''csv-data/readme.txt'' = Inr None" by code_simp
  have p2: "partition_date ''csv-data/year=x/month=1/day=2/f.csv.gz'' = Inr None" by code_simp
  have p3: "partition_date ''csv-data/year=2024/month=02/day=30/f.csv.gz'' = Inr None"
    by code_simp
  have none: "\<forall>key\<in>set ?keys. partition_date key = Inr None"
    using p1 p2 p3 by simp
  note t = C2_failure_looks_like_no_data [of failing_env "''csv-data/''"
      "Raised ''EndpointConnectionError''" empty_env "''csv-data/''" junk_env "''csv-data/''" ?keys]
  from t f e j none p1 p2 p3 show ?thesis by blast
qed

text \<open>
  A bucket that cannot be reached and a bucket without objects give the same result; a
  bucket with partitions gives its first and last date.
\<close>

theorem C2_failure_indistinguishable_counterexample:
  "list_objects_v2 failing_env ''csv-data/'' = Inl (Raised ''EndpointConnectionError'')
   \<and> list_objects_v2 empty_env ''csv-data/'' = Inr None
   \<and> get_available_date_range failing_env ''csv-data/''
       = get_available_date_range empty_env ''csv-data/''
   \<and> get_available_date_range example_env ''csv-data/'' = (Some mar5, Some last_day)"
  by code_simp

end
